theory Spec2Isabelle
  imports Main
begin

section \<open>Python values and library functions used by ingest.py\<close>

text \<open>
  Strings are lists of characters; a character stands for a code point below 256.
  JSON values are the values that \<^verbatim>\<open>json.loads\<close> produces and \<^verbatim>\<open>json.dumps\<close>
  consumes, with integer numbers only (floating-point numbers are left out).  An object
  is an association list in insertion order, as a Python dict is; the keys of a parsed
  object are distinct.
\<close>

datatype json =
    JNull
  | JBool bool
  | JNum int
  | JStr string
  | JArr "json list"
  | JObj "(string \<times> json) list"

abbreviation DQUOTE :: char where "DQUOTE \<equiv> CHR 0x22"
abbreviation BSLASH :: char where "BSLASH \<equiv> CHR 0x5C"

text \<open>\<^verbatim>\<open>str.lower()\<close> on code points below 256.\<close>

definition lower_char :: "char \<Rightarrow> char" where
  "lower_char c =
     (let n = (of_char c :: nat) in
      if (65 \<le> n \<and> n \<le> 90) \<or> (192 \<le> n \<and> n \<le> 222 \<and> n \<noteq> 215)
      then char_of (n + 32) else c)"

definition lower :: "string \<Rightarrow> string" where
  "lower s = map lower_char s"

text \<open>\<^verbatim>\<open>str.strip()\<close>: the characters for which \<^verbatim>\<open>str.isspace\<close> holds are removed at
  both ends.\<close>

definition isspace :: "char \<Rightarrow> bool" where
  "isspace c =
     (let n = (of_char c :: nat) in
      (9 \<le> n \<and> n \<le> 13) \<or> (28 \<le> n \<and> n \<le> 32) \<or> n = 133 \<or> n = 160)"

definition strip :: "string \<Rightarrow> string" where
  "strip s = rev (dropWhile isspace (rev (dropWhile isspace s)))"

text \<open>\<^verbatim>\<open>", ".join(parts)\<close> and friends.\<close>

fun join :: "string \<Rightarrow> string list \<Rightarrow> string" where
  "join sep [] = []"
| "join sep [x] = x"
| "join sep (x # y # ys) = x @ sep @ join sep (y # ys)"

text \<open>Decimal rendering of Python integers.\<close>

definition digit_char :: "nat \<Rightarrow> char" where
  "digit_char n = char_of (48 + n)"

function dec_nat :: "nat \<Rightarrow> string" where
  "dec_nat n = (if n < 10 then [digit_char n] else dec_nat (n div 10) @ [digit_char (n mod 10)])"
  by pat_completeness auto
termination
  by (relation "measure id") auto

definition dec_int :: "int \<Rightarrow> string" where
  "dec_int i = (if i < 0 then CHR ''-'' # dec_nat (nat (- i)) else dec_nat (nat i))"

text \<open>
  \<^verbatim>\<open>json.dumps\<close> with its defaults: \<^verbatim>\<open>ensure_ascii=True\<close>, item separator
  \<^verbatim>\<open>", "\<close> and key separator \<^verbatim>\<open>": "\<close>.  Inside a string the quote and the backslash
  get a backslash, the five control characters with a short escape get it, and every
  other character outside the printable ASCII range becomes \<^verbatim>\<open>\u00XX\<close> in lower-case
  hexadecimal.
\<close>

definition hex_digit :: "nat \<Rightarrow> char" where
  "hex_digit n = (if n < 10 then char_of (48 + n) else char_of (87 + n))"

definition escape_char :: "char \<Rightarrow> string" where
  "escape_char c =
     (let n = (of_char c :: nat) in
      if c = DQUOTE then [BSLASH, DQUOTE]
      else if c = BSLASH then [BSLASH, BSLASH]
      else if n = 10 then [BSLASH, CHR ''n'']
      else if n = 13 then [BSLASH, CHR ''r'']
      else if n = 9 then [BSLASH, CHR ''t'']
      else if n = 8 then [BSLASH, CHR ''b'']
      else if n = 12 then [BSLASH, CHR ''f'']
      else if n < 32 \<or> 126 < n
        then [BSLASH, CHR ''u'', CHR ''0'', CHR ''0'', hex_digit (n div 16), hex_digit (n mod 16)]
      else [c])"

definition dumps_str :: "string \<Rightarrow> string" where
  "dumps_str s = DQUOTE # concat (map escape_char s) @ [DQUOTE]"

fun json_dumps :: "json \<Rightarrow> string" where
  "json_dumps JNull = ''null''"
| "json_dumps (JBool b) = (if b then ''true'' else ''false'')"
| "json_dumps (JNum i) = dec_int i"
| "json_dumps (JStr s) = dumps_str s"
| "json_dumps (JArr xs) = ''['' @ join '', '' (map json_dumps xs) @ '']''"
| "json_dumps (JObj kvs) =
     ''{'' @ join '', '' (map (\<lambda>kv. dumps_str (fst kv) @ '': '' @ json_dumps (snd kv)) kvs) @ ''}''"

text \<open>
  \<^verbatim>\<open>sys.getsizeof\<close> of an ASCII string is a fixed object header plus one byte per
  character.  The size of the header depends on the interpreter (49 bytes on 64-bit
  CPython up to 3.11, 41 bytes from 3.12), so it is a parameter.
\<close>

definition getsizeof :: "nat \<Rightarrow> string \<Rightarrow> nat" where
  "getsizeof header s = header + length s"

subsection \<open>Errors\<close>

datatype error =
    HTTPError int
  | ValueError
  | AttributeError
  | TypeError
  | KeyError string
  | ConnectionError
  | IngestRuntimeError int json
  | FetchRuntimeError string int error

text \<open>
  \<open>IngestRuntimeError status reason\<close> is the \<^verbatim>\<open>RuntimeError\<close> raised by
  \<^verbatim>\<open>_send_logs_to_chronicle\<close>; it carries the two values its message interpolates.
  \<open>FetchRuntimeError name status cause\<close> is the \<^verbatim>\<open>RuntimeError\<close> raised by
  \<^verbatim>\<open>get_reference_list\<close>, with the list name, the status code and the exception it wraps.
  \<open>ConnectionError\<close> is the exception of \<^verbatim>\<open>requests\<close> for a remote end that cannot be
  reached.  Of these exceptions only the two that this module raises are instances of
  \<^verbatim>\<open>RuntimeError\<close>.
\<close>

fun is_RuntimeError :: "error \<Rightarrow> bool" where
  "is_RuntimeError (IngestRuntimeError status reason) = True"
| "is_RuntimeError (FetchRuntimeError name status cause) = True"
| "is_RuntimeError err = False"

text \<open>\<^verbatim>\<open>d[key]\<close>: a dict without the key raises a \<^verbatim>\<open>KeyError\<close>; a value of another type
  does not take a string as subscript.\<close>

fun getitem :: "json \<Rightarrow> string \<Rightarrow> error + json" where
  "getitem (JObj kvs) k = (case map_of kvs k of None \<Rightarrow> Inl (KeyError k) | Some v \<Rightarrow> Inr v)"
| "getitem j k = Inl TypeError"

text \<open>\<^verbatim>\<open>len(x)\<close>: lists, strings and dicts have a length.\<close>

fun len :: "json \<Rightarrow> error + nat" where
  "len (JArr xs) = Inr (length xs)"
| "len (JStr s) = Inr (length s)"
| "len (JObj kvs) = Inr (length kvs)"
| "len j = Inl TypeError"

text \<open>\<^verbatim>\<open>d.get(key, default)\<close>: only a dict has the method.\<close>

fun dict_get :: "json \<Rightarrow> string \<Rightarrow> json \<Rightarrow> error + json" where
  "dict_get (JObj kvs) k d = Inr (case map_of kvs k of None \<Rightarrow> d | Some v \<Rightarrow> v)"
| "dict_get j k d = Inl AttributeError"

subsection \<open>The HTTP session\<close>

record http_request =
  req_method :: string
  req_url :: string
  req_headers :: "(string \<times> string) list"
  req_json :: "json option"

text \<open>The body of a response: nothing at all, text that is not JSON, or a JSON document.\<close>

datatype http_content = EmptyBody | InvalidJson | JsonBody json

record http_response =
  status_code :: int
  content :: http_content

text \<open>
  What \<^verbatim>\<open>http_session.request\<close> does with a request, given the requests received so
  far: it returns a response, or it raises the exception of a transport that has no
  response to give (the connection fails, the access token cannot be refreshed).  A
  session is the list of requests it has issued.
\<close>

type_synonym transport = "http_request list \<Rightarrow> http_request \<Rightarrow> error + http_response"

text \<open>
  What a run finds behind the \<^verbatim>\<open>google-auth\<close> library.
  \<^verbatim>\<open>Credentials.from_service_account_info\<close> raises when \<^verbatim>\<open>SERVICE_ACCOUNT_DICT\<close> is not a
  service account: \<open>service_account_error\<close> is that exception, if there is one.
  \<open>respond\<close> is what the requests of an authorized session meet.
\<close>

record server =
  service_account_error :: "error option"
  respond :: transport

text \<open>\<^verbatim>\<open>Response.raise_for_status()\<close> raises for a 4xx or 5xx status only.\<close>

definition raise_for_status :: "http_response \<Rightarrow> error + unit" where
  "raise_for_status r =
     (if 400 \<le> status_code r \<and> status_code r < 600 then Inl (HTTPError (status_code r))
      else Inr ())"

text \<open>\<^verbatim>\<open>bool(response)\<close> is \<^verbatim>\<open>response.ok\<close>: true when \<^verbatim>\<open>raise_for_status\<close> does not raise.\<close>

definition response_bool :: "http_response \<Rightarrow> bool" where
  "response_bool r = (case raise_for_status r of Inl e \<Rightarrow> False | Inr u \<Rightarrow> True)"

text \<open>\<^verbatim>\<open>response.json()\<close> raises a \<^verbatim>\<open>ValueError\<close> when the body is not a JSON document.\<close>

definition response_json :: "http_response \<Rightarrow> error + json" where
  "response_json r = (case content r of JsonBody j \<Rightarrow> Inr j | _ \<Rightarrow> Inl ValueError)"

section \<open>ingest.py\<close>

definition INGESTION_API_BASE_URL :: string where
  "INGESTION_API_BASE_URL = ''malachiteingestion-pa.googleapis.com''"

definition REFERENCE_LIST_API_BASE_URL :: string where
  "REFERENCE_LIST_API_BASE_URL = ''backstory.googleapis.com''"

definition SIZE_THRESHOLD_BYTES :: nat where
  "SIZE_THRESHOLD_BYTES = 950000"

definition LOG_BATCH_SIZE :: nat where
  "LOG_BATCH_SIZE = 100"

text \<open>The module-level configuration and the environment of a run.\<close>

record world =
  CUSTOMER_ID :: string
  REGION :: string
  NAMESPACE :: "string option"
  str_header :: nat
  remote :: server

text \<open>
  \<^verbatim>\<open>initialize_http_session\<close> builds the credentials from \<^verbatim>\<open>SERVICE_ACCOUNT_DICT\<close> and
  wraps them in a session, without any request.  The session it returns is followed as
  the list of its requests, so that the value returned here is the unit.
\<close>

definition initialize_http_session :: "world \<Rightarrow> error + unit" where
  "initialize_http_session w =
     (case service_account_error (remote w) of Some err \<Rightarrow> Inl err | None \<Rightarrow> Inr ())"

subsection \<open>\<^verbatim>\<open>_send_logs_to_chronicle\<close>\<close>

definition ingestion_url :: "string \<Rightarrow> string" where
  "ingestion_url region =
     (if lower region \<noteq> ''us''
      then ''https://'' @ lower region @ ''-'' @ INGESTION_API_BASE_URL
             @ ''/v2/unstructuredlogentries:batchCreate''
      else ''https://'' @ INGESTION_API_BASE_URL @ ''/v2/unstructuredlogentries:batchCreate'')"

definition ingestion_request :: "json \<Rightarrow> string \<Rightarrow> http_request" where
  "ingestion_request body region =
     \<lparr>req_method = ''POST'', req_url = ingestion_url region,
      req_headers = [(''Content-Type'', ''application/json'')], req_json = Some body\<rparr>"

text \<open>The \<^verbatim>\<open>except Exception\<close> handler of \<^verbatim>\<open>_send_logs_to_chronicle\<close>.\<close>

definition ingestion_failure :: "http_response \<Rightarrow> error" where
  "ingestion_failure response =
     (case response_json response of
        Inl e \<Rightarrow>
          IngestRuntimeError (status_code response)
            (JStr ''Failed to parse error response from Chronicle'')
      | Inr j \<Rightarrow>
          (case dict_get j ''error'' (JStr ''Unknown error'') of
             Inl e \<Rightarrow> e
           | Inr error_message \<Rightarrow> IngestRuntimeError (status_code response) error_message))"

text \<open>The \<^verbatim>\<open>try\<close> statement of \<^verbatim>\<open>_send_logs_to_chronicle\<close>, lines 143 to 155: whatever
  is raised between \<^verbatim>\<open>try\<close> and \<^verbatim>\<open>except\<close> goes to the handler.\<close>

definition ingestion_outcome :: "http_response \<Rightarrow> error + unit" where
  "ingestion_outcome response =
     (case raise_for_status response of
        Inl err \<Rightarrow> Inl (ingestion_failure response)
      | Inr u \<Rightarrow>
          (case response_json response of
             Inl err \<Rightarrow> Inl (ingestion_failure response)
           | Inr j \<Rightarrow> Inr ()))"

text \<open>
  The function takes the session (the requests issued so far) and returns the session
  extended by its request together with its outcome.  \<^verbatim>\<open>len(body["entries"])\<close> on line
  138 comes before the request: a body without entries, or with entries that have no
  length, ends the call there, and no request is issued.  The request itself stands
  before the \<^verbatim>\<open>try\<close>, so that an exception of the transport leaves the function as it
  is.  The \<^verbatim>\<open>print\<close> calls are left out.
\<close>

definition send_logs_to_chronicle ::
  "transport \<Rightarrow> http_request list \<Rightarrow> json \<Rightarrow> string \<Rightarrow> http_request list \<times> (error + unit)" where
  "send_logs_to_chronicle srv http_session body region =
     (case getitem body ''entries'' of
        Inl err \<Rightarrow> (http_session, Inl err)
      | Inr body_entries \<Rightarrow>
          (case len body_entries of
             Inl err \<Rightarrow> (http_session, Inl err)
           | Inr log_count \<Rightarrow>
               (let request = ingestion_request body region
                in (http_session @ [request],
                    (case srv http_session request of
                       Inl err \<Rightarrow> Inl err
                     | Inr response \<Rightarrow> ingestion_outcome response)))))"

subsection \<open>\<^verbatim>\<open>get_reference_list\<close>\<close>

definition reference_list_url :: "string \<Rightarrow> string \<Rightarrow> string" where
  "reference_list_url region list_name =
     (if lower region \<noteq> ''us''
      then ''https://'' @ lower region @ ''-'' @ REFERENCE_LIST_API_BASE_URL
             @ ''/v2/lists/'' @ list_name
      else ''https://'' @ REFERENCE_LIST_API_BASE_URL @ ''/v2/lists/'' @ list_name)"

definition reference_list_request :: "string \<Rightarrow> string \<Rightarrow> http_request" where
  "reference_list_request region list_name =
     \<lparr>req_method = ''GET'', req_url = reference_list_url region list_name,
      req_headers = [(''Content-Type'', ''application/json'')], req_json = None\<rparr>"

text \<open>What a \<^verbatim>\<open>for\<close> loop over a JSON value goes through: the items of a list, the
  characters of a string, the keys of a dict; anything else is not iterable.\<close>

fun iterate :: "json \<Rightarrow> error + json list" where
  "iterate (JArr xs) = Inr xs"
| "iterate (JStr s) = Inr (map (\<lambda>c. JStr [c]) s)"
| "iterate (JObj kvs) = Inr (map (\<lambda>kv. JStr (fst kv)) kvs)"
| "iterate j = Inl TypeError"

text \<open>\<^verbatim>\<open>[s.strip() for s in list_content if s.strip()]\<close>, item by item: the first item
  without a \<^verbatim>\<open>strip\<close> method ends the comprehension with an \<^verbatim>\<open>AttributeError\<close>.\<close>

fun strip_items :: "json list \<Rightarrow> error + string list" where
  "strip_items [] = Inr []"
| "strip_items (JStr s # rest) =
     (case strip_items rest of
        Inl e \<Rightarrow> Inl e
      | Inr out \<Rightarrow> Inr (if strip s \<noteq> [] then strip s # out else out))"
| "strip_items (j # rest) = Inl AttributeError"

definition stripped_list_content :: "json \<Rightarrow> error + string list" where
  "stripped_list_content list_content =
     (case iterate list_content of Inl e \<Rightarrow> Inl e | Inr items \<Rightarrow> strip_items items)"

text \<open>
  The result is \<open>Inr (Some lines)\<close> for a returned list, \<open>Inr None\<close> for the
  fall-through of the \<^verbatim>\<open>if response:\<close> test (Python's implicit \<^verbatim>\<open>return None\<close>), and
  \<open>Inl e\<close> for an exception.
\<close>

text \<open>The \<^verbatim>\<open>try\<close> statement of \<^verbatim>\<open>get_reference_list\<close>, lines 184 to 194.\<close>

definition reference_list_outcome :: "string \<Rightarrow> http_response \<Rightarrow> error + string list option" where
  "reference_list_outcome list_name response =
     (let failure = (\<lambda>err. Inl (FetchRuntimeError list_name (status_code response) err))
      in case raise_for_status response of
           Inl err \<Rightarrow> failure err
         | Inr u \<Rightarrow>
             if response_bool response then
               (case response_json response of
                  Inl err \<Rightarrow> failure err
                | Inr j \<Rightarrow>
                    (case dict_get j ''lines'' (JArr []) of
                       Inl err \<Rightarrow> failure err
                     | Inr list_content \<Rightarrow>
                         (case stripped_list_content list_content of
                            Inl err \<Rightarrow> failure err
                          | Inr lines \<Rightarrow> Inr (Some lines))))
             else Inr None)"

text \<open>
  The session is set up and the request is issued before the \<^verbatim>\<open>try\<close>, on lines 171 to
  183: an exception of either leaves the function as it is.
\<close>

definition get_reference_list :: "world \<Rightarrow> string \<Rightarrow> error + string list option" where
  "get_reference_list w list_name =
     (case initialize_http_session w of
        Inl err \<Rightarrow> Inl err
      | Inr http_session \<Rightarrow>
          (case respond (remote w) [] (reference_list_request (REGION w) list_name) of
             Inl err \<Rightarrow> Inl err
           | Inr response \<Rightarrow> reference_list_outcome list_name response))"

subsection \<open>\<^verbatim>\<open>ingest\<close>\<close>

text \<open>\<^verbatim>\<open>{"logText": json.dumps(i)}\<close>\<close>

definition envelope :: "json \<Rightarrow> json" where
  "envelope i = JObj [(''logText'', JStr (json_dumps i))]"

text \<open>The dict \<^verbatim>\<open>body\<close> with the given list under \<^verbatim>\<open>"entries"\<close>; the key
  \<^verbatim>\<open>"namespace"\<close> is added last, and only for a non-empty namespace.\<close>

definition request_body :: "world \<Rightarrow> string \<Rightarrow> json list \<Rightarrow> json" where
  "request_body w log_type es =
     JObj ([(''customerId'', JStr (CUSTOMER_ID w)),
            (''logType'', JStr log_type),
            (''entries'', JArr es)]
           @ (case NAMESPACE w of
                None \<Rightarrow> []
              | Some namespace \<Rightarrow> if namespace \<noteq> [] then [(''namespace'', JStr namespace)] else []))"

text \<open>
  The state of the batching loop: the cursor, the accumulated \<^verbatim>\<open>body["entries"]\<close>, the
  requests issued through the session so far, and the exception that ended the run, if
  any.
\<close>

record ingest_state =
  index :: nat
  entries :: "json list"
  http_session :: "http_request list"
  raised :: "error option"

text \<open>Send the body, then clear its entries; an exception of the send ends the run.\<close>

definition flush :: "world \<Rightarrow> string \<Rightarrow> ingest_state \<Rightarrow> ingest_state" where
  "flush w log_type s =
     (case send_logs_to_chronicle (respond (remote w)) (http_session s)
             (request_body w log_type (entries s)) (REGION w) of
        (session, Inl err) \<Rightarrow> s\<lparr>http_session := session, raised := Some err\<rparr>
      | (session, Inr u) \<Rightarrow> s\<lparr>http_session := session, entries := []\<rparr>)"

text \<open>One pass through the body of the \<^verbatim>\<open>while\<close> loop.\<close>

definition loop_body :: "world \<Rightarrow> string \<Rightarrow> json list \<Rightarrow> ingest_state \<Rightarrow> ingest_state" where
  "loop_body w log_type parsed_data s =
     (let next_batch_of_logs = take LOG_BATCH_SIZE (drop (index s) parsed_data);
          size_of_current_payload =
            getsizeof (str_header w) (json_dumps (request_body w log_type (entries s)));
          size_of_next_batch = getsizeof (str_header w) (json_dumps (JArr next_batch_of_logs))
      in if size_of_next_batch \<ge> SIZE_THRESHOLD_BYTES then
           (let size_of_next_log =
                  getsizeof (str_header w) (json_dumps (parsed_data ! index s))
            in if size_of_current_payload + size_of_next_log \<le> SIZE_THRESHOLD_BYTES
               then s\<lparr>entries := entries s @ [parsed_data ! index s], index := index s + 1\<rparr>
               else flush w log_type s)
         else if size_of_current_payload + size_of_next_batch \<le> SIZE_THRESHOLD_BYTES
           then s\<lparr>entries := entries s @ next_batch_of_logs,
                  index := index s + LOG_BATCH_SIZE\<rparr>
         else flush w log_type s)"

definition loop_running :: "json list \<Rightarrow> ingest_state \<Rightarrow> bool" where
  "loop_running parsed_data s = (raised s = None \<and> index s < length parsed_data)"

text \<open>At most \<open>fuel\<close> passes of the loop.\<close>

fun while_loop :: "world \<Rightarrow> string \<Rightarrow> json list \<Rightarrow> nat \<Rightarrow> ingest_state \<Rightarrow> ingest_state" where
  "while_loop w log_type parsed_data 0 s = s"
| "while_loop w log_type parsed_data (Suc fuel) s =
     (if loop_running parsed_data s
      then while_loop w log_type parsed_data fuel (loop_body w log_type parsed_data s)
      else s)"

text \<open>The statement after the loop: one more send when entries remain.\<close>

definition final_flush :: "world \<Rightarrow> string \<Rightarrow> ingest_state \<Rightarrow> ingest_state" where
  "final_flush w log_type s =
     (if raised s = None \<and> entries s \<noteq> [] then flush w log_type s else s)"

definition initial_state :: ingest_state where
  "initial_state = \<lparr>index = 0, entries = [], http_session = [], raised = None\<rparr>"

text \<open>
  The run after at most \<open>fuel\<close> passes of the loop, with the final send when the loop
  has ended by then: every request of every run, finished or not, is in the session of
  some \<open>ingest_progress\<close>.
\<close>

definition ingest_progress :: "world \<Rightarrow> json list \<Rightarrow> string \<Rightarrow> nat \<Rightarrow> ingest_state" where
  "ingest_progress w data log_type fuel =
     (case initialize_http_session w of
        Inl err \<Rightarrow> initial_state\<lparr>raised := Some err\<rparr>
      | Inr session \<Rightarrow>
          (let parsed_data = map envelope data;
               s = while_loop w log_type parsed_data fuel initial_state
           in if loop_running parsed_data s then s else final_flush w log_type s))"

text \<open>
  \<open>ingest\<close> returns the requests it has issued and its outcome (\<open>Inl\<close> the exception
  raised, \<open>Inr ()\<close> a normal return), or \<open>None\<close> when the loop is still running after
  \<open>fuel\<close> passes.  An exception of \<^verbatim>\<open>initialize_http_session\<close> on line 65 ends the run
  before the first pass.
\<close>

definition ingest ::
  "world \<Rightarrow> json list \<Rightarrow> string \<Rightarrow> nat \<Rightarrow> (http_request list \<times> (error + unit)) option" where
  "ingest w data log_type fuel =
     (case initialize_http_session w of
        Inl err \<Rightarrow> Some ([], Inl err)
      | Inr session \<Rightarrow>
          (let parsed_data = map envelope data;
               s = while_loop w log_type parsed_data fuel initial_state
           in if loop_running parsed_data s then None
              else (let s' = final_flush w log_type s
                    in Some (http_session s',
                             (case raised s' of None \<Rightarrow> Inr () | Some err \<Rightarrow> Inl err)))))"

text \<open>The entries a request carries.\<close>

fun entries_of :: "http_request \<Rightarrow> json list" where
  "entries_of r =
     (case req_json r of
        Some (JObj kvs) \<Rightarrow> (case map_of kvs ''entries'' of Some (JArr es) \<Rightarrow> es | _ \<Rightarrow> [])
      | _ \<Rightarrow> [])"

text \<open>A remote end that accepts every request: the service account loads, and every
  request is answered with status 200 and an empty JSON object.\<close>

definition accepting :: server where
  "accepting =
     \<lparr>service_account_error = None,
      respond = (\<lambda>received request. Inr \<lparr>status_code = 200, content = JsonBody (JObj [])\<rparr>)\<rparr>"

text \<open>The run of Scenario 4: the reference-list endpoint answers 200 with the body
  \<^verbatim>\<open>{"lines": [" a ", "", "b"]}\<close>.\<close>

definition scenario4 :: world where
  "scenario4 =
     \<lparr>CUSTOMER_ID = ''c'', REGION = ''us'', NAMESPACE = None, str_header = 49,
      remote =
        \<lparr>service_account_error = None,
         respond = (\<lambda>received request.
           Inr \<lparr>status_code = 200,
                content =
                  JsonBody (JObj [(''lines'', JArr [JStr '' a '', JStr '''', JStr ''b''])])\<rparr>)\<rparr>\<rparr>"

text \<open>The message of the \<^verbatim>\<open>RuntimeError\<close> of \<^verbatim>\<open>_send_logs_to_chronicle\<close> when the reason is a
  string.\<close>

definition ingest_error_message :: "int \<Rightarrow> string \<Rightarrow> string" where
  "ingest_error_message status reason =
     ''Error occurred while pushing logs to Chronicle. Status code '' @ dec_int status
       @ ''. Reason: '' @ reason"

text \<open>
  The host of an \<^verbatim>\<open>https\<close> URL.  The authority runs from the two slashes to the first
  slash, question mark or number sign (RFC 3986), or backslash (which ends the authority
  too for \<^verbatim>\<open>urllib3\<close>, the parser behind the session).  The host is what follows the
  last at-sign of the authority, up to the colon of a port.  Address literals in brackets
  are left out.
\<close>

definition url_authority :: "string \<Rightarrow> string" where
  "url_authority u =
     takeWhile (\<lambda>c. c \<noteq> CHR ''/'' \<and> c \<noteq> CHR ''?'' \<and> c \<noteq> CHR ''#'' \<and> c \<noteq> BSLASH)
       (drop (length ''https://'') u)"

definition url_host :: "string \<Rightarrow> string" where
  "url_host u =
     takeWhile (\<lambda>c. c \<noteq> CHR '':'')
       (rev (takeWhile (\<lambda>c. c \<noteq> CHR ''@'') (rev (url_authority u))))"

text \<open>The characters of a host name: ASCII letters, digits, the hyphen and the dot.\<close>

definition hostname_char :: "char \<Rightarrow> bool" where
  "hostname_char c =
     (let n = (of_char c :: nat) in
      (48 \<le> n \<and> n \<le> 57) \<or> (65 \<le> n \<and> n \<le> 90) \<or> (97 \<le> n \<and> n \<le> 122) \<or> n = 45 \<or> n = 46)"

text \<open>A world for concrete runs: 64-bit CPython up to 3.11, region \<^verbatim>\<open>us\<close>, no namespace,
  and a remote end that accepts every request.\<close>

definition sample_world :: world where
  "sample_world =
     \<lparr>CUSTOMER_ID = ''c'', REGION = ''us'', NAMESPACE = None, str_header = 49,
      remote = accepting\<rparr>"

text \<open>The two sizes the loop measures: the current payload and a list of entries.\<close>

abbreviation payload_size :: "world \<Rightarrow> string \<Rightarrow> json list \<Rightarrow> nat" where
  "payload_size w log_type es \<equiv> getsizeof (str_header w) (json_dumps (request_body w log_type es))"

abbreviation batch_size :: "world \<Rightarrow> json list \<Rightarrow> nat" where
  "batch_size w es \<equiv> getsizeof (str_header w) (json_dumps (JArr es))"

section \<open>The reference list\<close>

lemma strip_items_strings:
  "strip_items (map JStr ls) = Inr (filter (\<lambda>s. s \<noteq> []) (map strip ls))"
  by (induction ls) simp_all

lemma strip_scenario4:
  "strip '' a '' = ''a''" "strip '''' = ''''" "strip ''b'' = ''b''"
  by (simp_all add: strip_def isspace_def)

text \<open>
  C7.  On a 2xx response (the session has been set up and the request has been answered)
  whose body is a JSON object, \<open>get_reference_list\<close> returns the strings of the field
  \<^verbatim>\<open>lines\<close> (none when the field is absent), each one trimmed, those that are empty after
  trimming dropped, in their original order.
\<close>

theorem get_reference_list_lines:
  assumes init: "initialize_http_session w = Inr ()"
    and r: "respond (remote w) [] (reference_list_request (REGION w) list_name) = Inr r"
    and ok: "200 \<le> status_code r" "status_code r < 300"
    and body: "content r = JsonBody (JObj kvs)"
    and lines: "map_of kvs ''lines'' = Some (JArr (map JStr ls))
                \<or> (map_of kvs ''lines'' = None \<and> ls = [])"
  shows "get_reference_list w list_name = Inr (Some (filter (\<lambda>s. s \<noteq> []) (map strip ls)))"
proof -
  have st: "raise_for_status r = Inr ()"
    using ok by (simp add: raise_for_status_def)
  have js: "response_json r = Inr (JObj kvs)"
    using body by (simp add: response_json_def)
  have get: "dict_get (JObj kvs) ''lines'' (JArr []) = Inr (JArr (map JStr ls))"
    using lines by auto
  have it: "stripped_list_content (JArr (map JStr ls))
            = Inr (filter (\<lambda>s. s \<noteq> []) (map strip ls))"
    by (simp add: stripped_list_content_def strip_items_strings)
  have out: "reference_list_outcome list_name r
             = Inr (Some (filter (\<lambda>s. s \<noteq> []) (map strip ls)))"
    unfolding reference_list_outcome_def Let_def
    by (simp only: st js get it response_bool_def sum.case if_True unit.case)
  show ?thesis
    unfolding get_reference_list_def
    by (simp only: init r out sum.case)
qed

theorem get_reference_list_lines_witness:
  "get_reference_list scenario4 ''blocked_ips'' = Inr (Some [''a'', ''b''])"
  using get_reference_list_lines [where w = scenario4 and list_name = "''blocked_ips''"
      and r = "\<lparr>status_code = 200,
               content = JsonBody (JObj [(''lines'', JArr [JStr '' a '', JStr '''', JStr ''b''])])\<rparr>"
      and kvs = "[(''lines'', JArr [JStr '' a '', JStr '''', JStr ''b''])]"
      and ls = "['' a '', '''', ''b'']"]
  by (simp add: scenario4_def initialize_http_session_def strip_scenario4)

text \<open>
  C10 (as amended).  \<open>get_reference_list\<close> never returns \<^verbatim>\<open>None\<close>.  When the set-up of
  the session raises, or the request raises before there is a response, that exception
  leaves the function as it is, whatever its class.  Once there is a response, the
  function returns a list of strings or raises its \<^verbatim>\<open>RuntimeError\<close> with the status code
  of the response: the fall-through that would return \<^verbatim>\<open>None\<close> is never taken, because a
  response that passes \<^verbatim>\<open>raise_for_status\<close> is truthy.
\<close>

theorem get_reference_list_never_None:
  "(\<exists>err. initialize_http_session w = Inl err \<and> get_reference_list w list_name = Inl err)
   \<or> (initialize_http_session w = Inr ()
       \<and> (\<exists>err. respond (remote w) [] (reference_list_request (REGION w) list_name) = Inl err
                \<and> get_reference_list w list_name = Inl err))
   \<or> (initialize_http_session w = Inr ()
       \<and> (\<exists>response. respond (remote w) [] (reference_list_request (REGION w) list_name)
                         = Inr response
            \<and> ((\<exists>lines. get_reference_list w list_name = Inr (Some lines))
               \<or> (\<exists>cause. get_reference_list w list_name
                     = Inl (FetchRuntimeError list_name (status_code response) cause)))))"
proof (cases "initialize_http_session w")
  case (Inl err)
  then show ?thesis
    by (simp add: get_reference_list_def)
next
  case init: (Inr u)
  show ?thesis
  proof (cases "respond (remote w) [] (reference_list_request (REGION w) list_name)")
    case (Inl err)
    with init show ?thesis
      by (simp add: get_reference_list_def)
  next
    case (Inr response)
    have "(\<exists>lines. reference_list_outcome list_name response = Inr (Some lines))
          \<or> (\<exists>cause. reference_list_outcome list_name response
                = Inl (FetchRuntimeError list_name (status_code response) cause))"
      unfolding reference_list_outcome_def Let_def response_bool_def
      by (auto split: sum.splits)
    with init Inr show ?thesis
      by (simp add: get_reference_list_def)
  qed
qed

text \<open>
  C10 as stated fails for a run in which there is no response: the exception of a remote
  end that cannot be reached, and the exception of a service account that does not load,
  leave \<open>get_reference_list\<close> as they are, and neither is a \<^verbatim>\<open>RuntimeError\<close>.
\<close>

theorem get_reference_list_without_response:
  "get_reference_list
     (sample_world\<lparr>remote := accepting\<lparr>respond := (\<lambda>received request. Inl ConnectionError)\<rparr>\<rparr>)
     ''blocked_ips'' = Inl ConnectionError
   \<and> \<not> is_RuntimeError ConnectionError
   \<and> get_reference_list
       (sample_world\<lparr>remote := accepting\<lparr>service_account_error := Some ValueError\<rparr>\<rparr>)
       ''blocked_ips'' = Inl ValueError
   \<and> \<not> is_RuntimeError ValueError"
  by (simp add: get_reference_list_def initialize_http_session_def sample_world_def accepting_def)

section \<open>The ingestion send\<close>

text \<open>A body with a list of entries gets past line 138, and its request is issued.\<close>

lemma send_with_entries:
  assumes "getitem body ''entries'' = Inr (JArr es)"
  shows "send_logs_to_chronicle srv session body region
         = (session @ [ingestion_request body region],
            (case srv session (ingestion_request body region) of
               Inl err \<Rightarrow> Inl err
             | Inr response \<Rightarrow> ingestion_outcome response))"
  using assms by (simp add: send_logs_to_chronicle_def Let_def)

lemma getitem_request_body:
  "getitem (request_body w log_type es) ''entries'' = Inr (JArr es)"
  by (simp add: request_body_def)

lemma send_request_body:
  "send_logs_to_chronicle srv session (request_body w log_type es) region
   = (session @ [ingestion_request (request_body w log_type es) region],
      (case srv session (ingestion_request (request_body w log_type es) region) of
         Inl err \<Rightarrow> Inl err
       | Inr response \<Rightarrow> ingestion_outcome response))"
  by (rule send_with_entries [OF getitem_request_body])

text \<open>A body without entries ends the call on line 138, before any request.\<close>

lemma send_body_without_entries:
  "send_logs_to_chronicle srv session (JObj []) region = (session, Inl (KeyError ''entries''))"
  by (simp add: send_logs_to_chronicle_def)

text \<open>A 2xx response whose body is a JSON document, the empty object included, is the
  confirmation: the send returns.\<close>

lemma send_json_success:
  assumes "getitem body ''entries'' = Inr (JArr es)"
    and "srv session (ingestion_request body region) = Inr r"
    and "200 \<le> status_code r" "status_code r < 300"
    and "content r = JsonBody j"
  shows "snd (send_logs_to_chronicle srv session body region) = Inr ()"
  using assms
  by (simp add: send_with_entries ingestion_outcome_def raise_for_status_def response_json_def)

text \<open>A 2xx response with a body of no bytes raises, whatever the status.\<close>

lemma send_no_content:
  assumes "getitem body ''entries'' = Inr (JArr es)"
    and "srv session (ingestion_request body region) = Inr r"
    and "200 \<le> status_code r" "status_code r < 300"
    and "content r = EmptyBody"
  shows "snd (send_logs_to_chronicle srv session body region)
         = Inl (IngestRuntimeError (status_code r)
                  (JStr ''Failed to parse error response from Chronicle''))"
  using assms
  by (simp add: send_with_entries ingestion_outcome_def raise_for_status_def response_json_def
      ingestion_failure_def)

text \<open>
  C9 states that a 2xx response with an empty body is taken for the confirmation, and
  that the send returns.  With status 200 and a body of no bytes,
  \<^verbatim>\<open>response.json()\<close> raises inside the \<^verbatim>\<open>try\<close> block, the handler for failed requests
  takes over, and the send of one entry raises its \<^verbatim>\<open>RuntimeError\<close> with status 200 and
  the reason of a failure that could not be parsed.  With the empty JSON object as body
  the same send returns.
\<close>

theorem send_empty_body_raises:
  "send_logs_to_chronicle (\<lambda>received request. Inr \<lparr>status_code = 200, content = EmptyBody\<rparr>)
     [] (request_body sample_world ''STIX'' [envelope (JNum 0)]) ''us''
   = ([ingestion_request (request_body sample_world ''STIX'' [envelope (JNum 0)]) ''us''],
      Inl (IngestRuntimeError 200 (JStr ''Failed to parse error response from Chronicle'')))
   \<and> send_logs_to_chronicle (respond accepting)
       [] (request_body sample_world ''STIX'' [envelope (JNum 0)]) ''us''
     = ([ingestion_request (request_body sample_world ''STIX'' [envelope (JNum 0)]) ''us''],
        Inr ())"
  by (simp add: send_request_body accepting_def ingestion_outcome_def raise_for_status_def
      response_json_def ingestion_failure_def del: json_dumps.simps)

text \<open>
  C6 (as amended).  When the ingestion endpoint answers the request of a body with a list
  of entries with a 4xx or 5xx status, and the body of its response is a JSON object or
  is not JSON at all, \<open>send_logs_to_chronicle\<close> raises its \<^verbatim>\<open>RuntimeError\<close> with the status
  code and a reason: the \<^verbatim>\<open>error\<close> field of the object when it has one, the string
  \<^verbatim>\<open>Unknown error\<close> when it has none, and the string
  \<^verbatim>\<open>Failed to parse error response from Chronicle\<close> when the body is not JSON.
\<close>

theorem send_failure:
  assumes entries: "getitem body ''entries'' = Inr (JArr es)"
    and r: "srv session (ingestion_request body region) = Inr r"
    and st: "400 \<le> status_code r" "status_code r < 600"
    and shape: "content r = JsonBody (JObj kvs) \<or> content r = EmptyBody \<or> content r = InvalidJson"
  shows "snd (send_logs_to_chronicle srv session body region)
         = Inl (IngestRuntimeError (status_code r)
              (case content r of
                 JsonBody j \<Rightarrow>
                   (case map_of kvs ''error'' of
                      Some error_message \<Rightarrow> error_message
                    | None \<Rightarrow> JStr ''Unknown error'')
               | _ \<Rightarrow> JStr ''Failed to parse error response from Chronicle''))"
  using st shape
  by (auto simp add: send_with_entries [OF entries] r ingestion_outcome_def raise_for_status_def
      response_json_def ingestion_failure_def split: option.splits)

text \<open>
  Scenario 3: HTTP 400 with the body \<^verbatim>\<open>{"error": "invalid logType"}\<close>, in answer to the
  request of one entry.
\<close>

theorem send_failure_witness:
  "snd (send_logs_to_chronicle
          (\<lambda>received request.
             Inr \<lparr>status_code = 400,
                  content = JsonBody (JObj [(''error'', JStr ''invalid logType'')])\<rparr>)
          [] (request_body sample_world ''STIX'' [envelope (JNum 0)]) ''us'')
     = Inl (IngestRuntimeError 400 (JStr ''invalid logType''))
   \<and> ingest_error_message 400 ''invalid logType''
     = ''Error occurred while pushing logs to Chronicle. Status code 400. Reason: invalid logType''"
  using send_failure [where srv = "\<lambda>received request.
             Inr \<lparr>status_code = 400,
                  content = JsonBody (JObj [(''error'', JStr ''invalid logType'')])\<rparr>"
       and session = "[]" and body = "request_body sample_world ''STIX'' [envelope (JNum 0)]"
       and region = "''us''" and kvs = "[(''error'', JStr ''invalid logType'')]"
       and es = "[envelope (JNum 0)]"
       and r = "\<lparr>status_code = 400,
                  content = JsonBody (JObj [(''error'', JStr ''invalid logType'')])\<rparr>",
       OF getitem_request_body]
  by (simp add: ingest_error_message_def dec_int_def digit_char_def char_of_eq_iff
      del: json_dumps.simps)

text \<open>
  C6 as stated fails twice: an error response whose JSON object has no \<^verbatim>\<open>error\<close> field
  gives the reason \<^verbatim>\<open>Unknown error\<close>, which is neither that field nor the fallback for a
  body that cannot be parsed; and a status that is neither 2xx nor 4xx nor 5xx passes
  \<^verbatim>\<open>raise_for_status\<close>, so nothing is raised.
\<close>

theorem send_failure_counterexample:
  "snd (send_logs_to_chronicle
          (\<lambda>received request. Inr \<lparr>status_code = 400, content = JsonBody (JObj [])\<rparr>)
          [] (request_body sample_world ''STIX'' [envelope (JNum 0)]) ''us'')
     = Inl (IngestRuntimeError 400 (JStr ''Unknown error''))
   \<and> snd (send_logs_to_chronicle
          (\<lambda>received request.
             Inr \<lparr>status_code = 300, content = JsonBody (JObj [(''error'', JStr ''gone'')])\<rparr>)
          [] (request_body sample_world ''STIX'' [envelope (JNum 0)]) ''us'')
     = Inr ()"
  by (simp add: send_request_body ingestion_outcome_def raise_for_status_def response_json_def
      ingestion_failure_def del: json_dumps.simps)

text \<open>
  An error response whose JSON document is not an object has no \<^verbatim>\<open>get\<close> method: the
  handler itself raises an \<^verbatim>\<open>AttributeError\<close>, which carries no status code.
\<close>

lemma send_non_object_error_body:
  "snd (send_logs_to_chronicle
          (\<lambda>received request. Inr \<lparr>status_code = 500, content = JsonBody (JArr [])\<rparr>)
          [] (request_body sample_world ''STIX'' [envelope (JNum 0)]) ''us'')
     = Inl AttributeError"
  by (simp add: send_request_body ingestion_outcome_def raise_for_status_def response_json_def
      ingestion_failure_def del: json_dumps.simps)

text \<open>An exception of the transport leaves the send as it is.\<close>

lemma send_without_response:
  assumes "getitem body ''entries'' = Inr (JArr es)"
    and "srv session (ingestion_request body region) = Inl err"
  shows "snd (send_logs_to_chronicle srv session body region) = Inl err"
  using assms by (simp add: send_with_entries)

section \<open>Region routing\<close>

lemma hostname_char_lower: "hostname_char c \<Longrightarrow> hostname_char (lower_char c)"
  by (auto simp add: hostname_char_def lower_char_def Let_def)

lemma hostname_char_plain:
  assumes "hostname_char c"
  shows "c \<noteq> CHR ''/''" "c \<noteq> CHR ''?''" "c \<noteq> CHR ''#''" "c \<noteq> BSLASH"
    "c \<noteq> CHR ''@''" "c \<noteq> CHR '':''"
  using assms by (auto simp add: hostname_char_def)

lemma hostname_lower: "\<forall>c \<in> set region. hostname_char c \<Longrightarrow> \<forall>c \<in> set (lower region). hostname_char c"
  by (simp add: lower_def hostname_char_lower)

lemma url_host_plain:
  assumes "\<forall>c \<in> set h. hostname_char c"
  shows "url_host (''https://'' @ h @ CHR ''/'' # rest) = h"
proof -
  have a: "url_authority (''https://'' @ h @ CHR ''/'' # rest) = h"
    using assms by (simp add: url_authority_def takeWhile_append2 hostname_char_plain)
  have b: "takeWhile (\<lambda>c. c \<noteq> CHR ''@'') (rev h) = rev h"
    using assms by (simp add: takeWhile_eq_all_conv hostname_char_plain)
  have c: "takeWhile (\<lambda>c. c \<noteq> CHR '':'') h = h"
    using assms by (simp add: takeWhile_eq_all_conv hostname_char_plain)
  show ?thesis
    by (simp only: url_host_def a b c rev_rev_ident)
qed

lemma base_hostnames:
  "\<forall>c \<in> set INGESTION_API_BASE_URL. hostname_char c"
  "\<forall>c \<in> set REFERENCE_LIST_API_BASE_URL. hostname_char c"
  by (simp_all add: INGESTION_API_BASE_URL_def REFERENCE_LIST_API_BASE_URL_def hostname_char_def)

text \<open>
  C8 (as amended).  Let the region be made of the characters of a host name: ASCII
  letters, digits, hyphens and dots.  Then the host of the ingestion URL and of the
  reference-list URL is the lower-cased region, a hyphen and the base host when the
  lower-cased region is not \<^verbatim>\<open>us\<close>, and the bare base host otherwise; and the send of a
  body with a list of entries issues exactly one request, the one with that URL.
\<close>

theorem region_routing:
  assumes region: "\<forall>c \<in> set region. hostname_char c"
    and entries: "getitem body ''entries'' = Inr (JArr es)"
  shows "fst (send_logs_to_chronicle srv session body region)
           = session @ [ingestion_request body region]
         \<and> url_host (req_url (ingestion_request body region))
           = (if lower region \<noteq> ''us'' then lower region @ ''-'' @ INGESTION_API_BASE_URL
              else INGESTION_API_BASE_URL)
         \<and> url_host (req_url (reference_list_request region list_name))
           = (if lower region \<noteq> ''us'' then lower region @ ''-'' @ REFERENCE_LIST_API_BASE_URL
              else REFERENCE_LIST_API_BASE_URL)"
proof -
  have l: "\<forall>c \<in> set (lower region). hostname_char c"
    using region by (rule hostname_lower)
  have hy: "hostname_char CHR ''-''"
    by (simp add: hostname_char_def)
  have li: "\<forall>c \<in> set (lower region @ ''-'' @ INGESTION_API_BASE_URL). hostname_char c"
    using l hy base_hostnames(1) by auto
  have lr: "\<forall>c \<in> set (lower region @ ''-'' @ REFERENCE_LIST_API_BASE_URL). hostname_char c"
    using l hy base_hostnames(2) by auto
  have 1: "fst (send_logs_to_chronicle srv session body region)
           = session @ [ingestion_request body region]"
    by (simp add: send_with_entries [OF entries])
  have 3: "url_host (req_url (ingestion_request body region))
           = (if lower region \<noteq> ''us'' then lower region @ ''-'' @ INGESTION_API_BASE_URL
              else INGESTION_API_BASE_URL)"
    using url_host_plain [OF li, of "''v2/unstructuredlogentries:batchCreate''"]
      url_host_plain [OF base_hostnames(1), of "''v2/unstructuredlogentries:batchCreate''"]
    by (simp add: ingestion_request_def ingestion_url_def)
  have 4: "url_host (req_url (reference_list_request region list_name))
           = (if lower region \<noteq> ''us'' then lower region @ ''-'' @ REFERENCE_LIST_API_BASE_URL
              else REFERENCE_LIST_API_BASE_URL)"
    using url_host_plain [OF lr, of "''v2/lists/'' @ list_name"]
      url_host_plain [OF base_hostnames(2), of "''v2/lists/'' @ list_name"]
    by (simp add: reference_list_request_def reference_list_url_def)
  show ?thesis using 1 3 4 by simp
qed

lemma lower_asia: "lower ''asia-southeast1'' = ''asia-southeast1''"
  by (simp add: lower_def lower_char_def)

text \<open>
  Scenario 5: region \<^verbatim>\<open>asia-southeast1\<close>.
\<close>

theorem region_routing_witness:
  "fst (send_logs_to_chronicle (respond accepting) []
          (request_body sample_world ''STIX'' [envelope (JNum 0)]) ''asia-southeast1'')
     = [ingestion_request (request_body sample_world ''STIX'' [envelope (JNum 0)])
          ''asia-southeast1'']
   \<and> url_host (req_url (ingestion_request (request_body sample_world ''STIX'' [envelope (JNum 0)])
                         ''asia-southeast1''))
     = ''asia-southeast1-malachiteingestion-pa.googleapis.com''
   \<and> url_host (req_url (reference_list_request ''asia-southeast1'' ''blocked_ips''))
     = ''asia-southeast1-backstory.googleapis.com''"
  using region_routing [where region = "''asia-southeast1''" and srv = "respond accepting"
      and session = "[]" and body = "request_body sample_world ''STIX'' [envelope (JNum 0)]"
      and es = "[envelope (JNum 0)]" and list_name = "''blocked_ips''",
      OF _ getitem_request_body]
  by (simp add: lower_asia hostname_char_def INGESTION_API_BASE_URL_def
      REFERENCE_LIST_API_BASE_URL_def del: json_dumps.simps)

text \<open>
  C8 as stated fails for a region that holds a character which ends the host of a URL:
  with the region \<^verbatim>\<open>a/b\<close>, which is not \<^verbatim>\<open>us\<close>, the host of both URLs is \<^verbatim>\<open>a\<close>, and the
  rest of the region is the start of the path.
\<close>

theorem region_prefix_counterexample:
  "lower ''a/b'' \<noteq> ''us''
   \<and> req_url (ingestion_request (request_body sample_world ''STIX'' [envelope (JNum 0)]) ''a/b'')
       = ''https://a/b-malachiteingestion-pa.googleapis.com/v2/unstructuredlogentries:batchCreate''
   \<and> url_host (req_url (ingestion_request (request_body sample_world ''STIX'' [envelope (JNum 0)])
                         ''a/b''))
       = ''a''
   \<and> url_host (req_url (reference_list_request ''a/b'' ''blocked_ips'')) = ''a''
   \<and> take (length ''a/b-'') ''a'' \<noteq> ''a/b-''"
  by (simp add: lower_def lower_char_def ingestion_request_def ingestion_url_def
      reference_list_request_def reference_list_url_def url_host_def url_authority_def
      INGESTION_API_BASE_URL_def REFERENCE_LIST_API_BASE_URL_def char_of_eq_iff
      del: json_dumps.simps)

section \<open>The batching loop\<close>

subsection \<open>Serialized sizes\<close>

lemma length_join:
  "length (join sep xs) = sum_list (map length xs) + length sep * (length xs - 1)"
  by (induction sep xs rule: join.induct) simp_all

lemma length_dumps_JArr:
  "length (json_dumps (JArr xs))
   = 2 + sum_list (map (\<lambda>x. length (json_dumps x)) xs) + 2 * (length xs - 1)"
  by (simp add: length_join comp_def)

lemma length_dumps_JArr_Nil: "length (json_dumps (JArr [])) = 2"
  by simp

lemma length_dumps_JArr_replicate:
  "0 < n \<Longrightarrow> length (json_dumps (JArr (replicate n e))) = n * (length (json_dumps e) + 2)"
  by (cases n) (simp_all add: length_dumps_JArr sum_list_replicate del: json_dumps.simps)

lemma length_dumps_JArr_append:
  "length (json_dumps (JArr (xs @ ys))) \<le> length (json_dumps (JArr xs)) + length (json_dumps (JArr ys))"
  unfolding length_dumps_JArr by (cases xs; cases ys) simp_all

lemma length_dumps_JArr_snoc:
  "length (json_dumps (JArr (xs @ [y]))) \<le> length (json_dumps (JArr xs)) + length (json_dumps y) + 2"
  unfolding length_dumps_JArr by (cases xs) simp_all

lemma length_request_body:
  "length (json_dumps (request_body w log_type es)) + 2
   = length (json_dumps (request_body w log_type [])) + length (json_dumps (JArr es))"
proof -
  have e: "json_dumps (JArr []) = ''[]''" by simp
  show ?thesis
    unfolding request_body_def
    by (cases "NAMESPACE w") (simp_all add: e del: json_dumps.simps(5))
qed

lemma length_request_body_Nil_ge:
  "48 \<le> length (json_dumps (request_body w log_type []))"
  unfolding request_body_def
  by (cases "NAMESPACE w") (simp_all add: dumps_str_def escape_char_def)

lemma concat_replicate_single: "concat (replicate n [x]) = replicate n x"
  by (induction n) simp_all

lemma escape_a: "escape_char CHR ''a'' = ''a''"
  by (simp add: escape_char_def)

lemma dumps_str_as: "dumps_str (replicate n CHR ''a'') = DQUOTE # replicate n CHR ''a'' @ [DQUOTE]"
  by (simp add: dumps_str_def escape_a concat_replicate_single)

lemma length_envelope:
  "length (json_dumps (envelope i)) = 13 + length (dumps_str (json_dumps i))"
  by (simp add: envelope_def dumps_str_def escape_char_def)

lemma length_envelope_as:
  "length (json_dumps (envelope (JStr (replicate n CHR ''a'')))) = n + 19"
  by (simp add: length_envelope dumps_str_as)
     (simp add: dumps_str_def escape_char_def escape_a concat_replicate_single)

lemma length_envelope_zero:
  "length (json_dumps (envelope (JNum 0))) = 16"
  by (simp add: length_envelope dec_int_def digit_char_def dumps_str_def escape_char_def
      char_of_eq_iff)

lemma size_batch_replicate:
  "0 < k \<Longrightarrow>
   getsizeof h (json_dumps (JArr (replicate k e))) = h + k * (length (json_dumps e) + 2)"
  by (simp add: getsizeof_def length_dumps_JArr_replicate del: json_dumps.simps)

lemma size_body_replicate:
  "0 < k \<Longrightarrow>
   getsizeof h (json_dumps (request_body w log_type (replicate k e))) + 2
   = h + length (json_dumps (request_body w log_type [])) + k * (length (json_dumps e) + 2)"
  using length_request_body [of w log_type "replicate k e"]
  by (simp add: getsizeof_def length_dumps_JArr_replicate del: json_dumps.simps)

lemma sample_world_simps:
  "remote sample_world = accepting" "str_header sample_world = 49"
  "REGION sample_world = ''us''"
  by (simp_all add: sample_world_def)

lemma sample_body_length:
  "length (json_dumps (request_body sample_world ''STIX'' [])) = 53"
  by (simp add: request_body_def sample_world_def dumps_str_def escape_char_def)

lemma sample_payload_Nil:
  "getsizeof 49 (json_dumps (request_body sample_world ''STIX'' [])) = 102"
  by (simp add: getsizeof_def sample_body_length del: json_dumps.simps)

lemma sample_payload_replicate:
  "0 < k \<Longrightarrow>
   getsizeof 49 (json_dumps (request_body sample_world ''STIX'' (replicate k e)))
   = 100 + k * (length (json_dumps e) + 2)"
  using size_body_replicate [of k 49 sample_world "''STIX''" e]
  by (simp add: sample_body_length del: json_dumps.simps)

subsection \<open>The size of the requests\<close>

lemma initialize_accepting: "remote w = accepting \<Longrightarrow> initialize_http_session w = Inr ()"
  by (simp add: initialize_http_session_def accepting_def)

lemma ingest_initialized:
  assumes "initialize_http_session w = Inr ()"
  shows "ingest w data log_type fuel =
     (let parsed_data = map envelope data;
          s = while_loop w log_type parsed_data fuel initial_state
      in if loop_running parsed_data s then None
         else (let s' = final_flush w log_type s
               in Some (http_session s',
                        (case raised s' of None \<Rightarrow> Inr () | Some err \<Rightarrow> Inl err))))"
  using assms by (simp add: ingest_def)

lemma ingest_progress_initialized:
  assumes "initialize_http_session w = Inr ()"
  shows "ingest_progress w data log_type fuel =
     (let parsed_data = map envelope data;
          s = while_loop w log_type parsed_data fuel initial_state
      in if loop_running parsed_data s then s else final_flush w log_type s)"
  using assms by (simp add: ingest_progress_def)

lemma flush_session:
  "http_session (flush w log_type s)
   = http_session s @ [ingestion_request (request_body w log_type (entries s)) (REGION w)]"
  by (simp add: flush_def send_request_body split: sum.splits)

lemma flush_index: "index (flush w log_type s) = index s"
  by (simp add: flush_def send_request_body split: sum.splits)

lemma flush_entries:
  "entries (flush w log_type s) = [] \<or> entries (flush w log_type s) = entries s"
  by (simp add: flush_def send_request_body split: sum.splits)

lemma flush_accepting:
  "remote w = accepting \<Longrightarrow>
   flush w log_type s
   = s\<lparr>http_session :=
          http_session s @ [ingestion_request (request_body w log_type (entries s)) (REGION w)],
        entries := []\<rparr>"
  by (simp add: flush_def send_request_body accepting_def ingestion_outcome_def
      raise_for_status_def response_json_def)

lemma body_snoc_size:
  "length (json_dumps (request_body w log_type (es @ [e])))
   \<le> length (json_dumps (request_body w log_type es)) + length (json_dumps e) + 2"
  using length_request_body [of w log_type "es @ [e]"] length_request_body [of w log_type es]
    length_dumps_JArr_snoc [of es e]
  by linarith

lemma body_append_size:
  "length (json_dumps (request_body w log_type (es @ batch)))
   \<le> length (json_dumps (request_body w log_type es)) + length (json_dumps (JArr batch))"
  using length_request_body [of w log_type "es @ batch"] length_request_body [of w log_type es]
    length_dumps_JArr_append [of es batch] length_dumps_JArr [of es]
  by linarith

lemma flush_sized:
  assumes empty: "getsizeof (str_header w) (json_dumps (request_body w log_type []))
                  \<le> SIZE_THRESHOLD_BYTES"
    and sess: "\<forall>r \<in> set (http_session s). \<exists>b. req_json r = Some b
                 \<and> getsizeof (str_header w) (json_dumps b) \<le> SIZE_THRESHOLD_BYTES"
    and cur: "getsizeof (str_header w) (json_dumps (request_body w log_type (entries s)))
              \<le> SIZE_THRESHOLD_BYTES"
  shows "(\<forall>r \<in> set (http_session (flush w log_type s)). \<exists>b. req_json r = Some b
            \<and> getsizeof (str_header w) (json_dumps b) \<le> SIZE_THRESHOLD_BYTES)
         \<and> getsizeof (str_header w) (json_dumps (request_body w log_type (entries (flush w log_type s))))
            \<le> SIZE_THRESHOLD_BYTES"
proof
  show "\<forall>r \<in> set (http_session (flush w log_type s)). \<exists>b. req_json r = Some b
            \<and> getsizeof (str_header w) (json_dumps b) \<le> SIZE_THRESHOLD_BYTES"
    using sess cur by (auto simp add: flush_session ingestion_request_def)
  show "getsizeof (str_header w) (json_dumps (request_body w log_type (entries (flush w log_type s))))
            \<le> SIZE_THRESHOLD_BYTES"
    using flush_entries [of w log_type s] empty cur by auto
qed

lemma loop_body_sized:
  assumes header: "2 \<le> str_header w"
    and empty: "getsizeof (str_header w) (json_dumps (request_body w log_type []))
                  \<le> SIZE_THRESHOLD_BYTES"
    and sess: "\<forall>r \<in> set (http_session s). \<exists>b. req_json r = Some b
                 \<and> getsizeof (str_header w) (json_dumps b) \<le> SIZE_THRESHOLD_BYTES"
    and cur: "getsizeof (str_header w) (json_dumps (request_body w log_type (entries s)))
              \<le> SIZE_THRESHOLD_BYTES"
  shows "(\<forall>r \<in> set (http_session (loop_body w log_type pd s)). \<exists>b. req_json r = Some b
            \<and> getsizeof (str_header w) (json_dumps b) \<le> SIZE_THRESHOLD_BYTES)
         \<and> getsizeof (str_header w)
              (json_dumps (request_body w log_type (entries (loop_body w log_type pd s))))
            \<le> SIZE_THRESHOLD_BYTES"
proof -
  note fl = flush_sized [OF empty sess cur]
  have one: "getsizeof (str_header w)
               (json_dumps (request_body w log_type (entries s @ [e]))) \<le> SIZE_THRESHOLD_BYTES"
    if "getsizeof (str_header w) (json_dumps (request_body w log_type (entries s)))
        + getsizeof (str_header w) (json_dumps e) \<le> SIZE_THRESHOLD_BYTES" for e
    using that header body_snoc_size [of w log_type "entries s" e]
    by (simp add: getsizeof_def)
  have many: "getsizeof (str_header w)
               (json_dumps (request_body w log_type (entries s @ batch))) \<le> SIZE_THRESHOLD_BYTES"
    if "getsizeof (str_header w) (json_dumps (request_body w log_type (entries s)))
        + getsizeof (str_header w) (json_dumps (JArr batch)) \<le> SIZE_THRESHOLD_BYTES" for batch
    using that body_append_size [of w log_type "entries s" batch]
    by (simp add: getsizeof_def)
  show ?thesis
    unfolding loop_body_def Let_def
    using fl sess one many by (simp del: json_dumps.simps)
qed

lemma while_loop_sized:
  assumes header: "2 \<le> str_header w"
    and empty: "getsizeof (str_header w) (json_dumps (request_body w log_type []))
                  \<le> SIZE_THRESHOLD_BYTES"
  shows "(\<forall>r \<in> set (http_session s). \<exists>b. req_json r = Some b
                 \<and> getsizeof (str_header w) (json_dumps b) \<le> SIZE_THRESHOLD_BYTES)
         \<and> getsizeof (str_header w) (json_dumps (request_body w log_type (entries s)))
              \<le> SIZE_THRESHOLD_BYTES
     \<Longrightarrow> (\<forall>r \<in> set (http_session (while_loop w log_type pd fuel s)). \<exists>b. req_json r = Some b
                 \<and> getsizeof (str_header w) (json_dumps b) \<le> SIZE_THRESHOLD_BYTES)
         \<and> getsizeof (str_header w)
              (json_dumps (request_body w log_type (entries (while_loop w log_type pd fuel s))))
              \<le> SIZE_THRESHOLD_BYTES"
proof (induction fuel arbitrary: s)
  case 0
  then show ?case by simp
next
  case (Suc fuel)
  show ?case
  proof (cases "loop_running pd s")
    case True
    have "(\<forall>r \<in> set (http_session (loop_body w log_type pd s)). \<exists>b. req_json r = Some b
            \<and> getsizeof (str_header w) (json_dumps b) \<le> SIZE_THRESHOLD_BYTES)
         \<and> getsizeof (str_header w)
              (json_dumps (request_body w log_type (entries (loop_body w log_type pd s))))
            \<le> SIZE_THRESHOLD_BYTES"
      using Suc.prems by (intro loop_body_sized [OF header empty]) simp_all
    from Suc.IH [OF this] True show ?thesis by simp
  next
    case False
    with Suc.prems show ?thesis by simp
  qed
qed

lemma progress_within_threshold:
  assumes header: "2 \<le> str_header w"
    and empty: "getsizeof (str_header w) (json_dumps (request_body w log_type []))
                  \<le> SIZE_THRESHOLD_BYTES"
  shows "\<forall>r \<in> set (http_session (ingest_progress w data log_type fuel)).
           \<exists>b. req_json r = Some b
             \<and> getsizeof (str_header w) (json_dumps b) \<le> SIZE_THRESHOLD_BYTES"
proof -
  let ?s = "while_loop w log_type (map envelope data) fuel initial_state"
  have inv: "(\<forall>r \<in> set (http_session ?s). \<exists>b. req_json r = Some b
                 \<and> getsizeof (str_header w) (json_dumps b) \<le> SIZE_THRESHOLD_BYTES)
         \<and> getsizeof (str_header w) (json_dumps (request_body w log_type (entries ?s)))
              \<le> SIZE_THRESHOLD_BYTES"
    using empty by (intro while_loop_sized [OF header empty]) (simp add: initial_state_def)
  then have "\<forall>r \<in> set (http_session (final_flush w log_type ?s)). \<exists>b. req_json r = Some b
                 \<and> getsizeof (str_header w) (json_dumps b) \<le> SIZE_THRESHOLD_BYTES"
    using flush_sized [OF empty, of ?s] by (simp add: final_flush_def)
  with inv show ?thesis
    by (simp add: ingest_progress_def Let_def initial_state_def split: sum.splits)
qed

lemma ingest_Some_progress:
  "ingest w data log_type fuel = Some (requests, outcome)
   \<Longrightarrow> requests = http_session (ingest_progress w data log_type fuel)"
  by (auto simp add: ingest_def ingest_progress_def Let_def initial_state_def
      split: if_splits sum.splits)

text \<open>
  C2 (as amended).  When the string header has at least two bytes and the body without
  entries is within the threshold, every request that \<open>ingest\<close> issues carries a body
  whose measured size is at most \<open>SIZE_THRESHOLD_BYTES\<close>, in every run, finished or not,
  whatever the remote end answers.  The exception the claim allows never arises: an
  envelope that alone exceeds the threshold is never appended to a body.
\<close>

theorem requests_within_threshold:
  assumes header: "2 \<le> str_header w"
    and empty: "payload_size w log_type [] \<le> SIZE_THRESHOLD_BYTES"
  shows "(\<forall>r \<in> set (http_session (ingest_progress w data log_type fuel)).
            \<exists>b. req_json r = Some b
              \<and> getsizeof (str_header w) (json_dumps b) \<le> SIZE_THRESHOLD_BYTES)
         \<and> (\<forall>requests outcome.
              ingest w data log_type fuel = Some (requests, outcome) \<longrightarrow>
              (\<forall>r \<in> set requests.
                 \<exists>b. req_json r = Some b
                   \<and> getsizeof (str_header w) (json_dumps b) \<le> SIZE_THRESHOLD_BYTES))"
  using progress_within_threshold [OF header empty, of data fuel]
    ingest_Some_progress [of w data log_type fuel]
  by blast

subsection \<open>Passes of the loop\<close>

lemma loop_body_flush_single:
  assumes "SIZE_THRESHOLD_BYTES
           \<le> getsizeof (str_header w) (json_dumps (JArr (take LOG_BATCH_SIZE (drop (index s) pd))))"
    and "\<not> getsizeof (str_header w) (json_dumps (request_body w log_type (entries s)))
           + getsizeof (str_header w) (json_dumps (pd ! index s)) \<le> SIZE_THRESHOLD_BYTES"
  shows "loop_body w log_type pd s = flush w log_type s"
  using assms unfolding loop_body_def Let_def by (simp del: json_dumps.simps)

lemma loop_body_flush_batch:
  assumes "\<not> SIZE_THRESHOLD_BYTES
           \<le> getsizeof (str_header w) (json_dumps (JArr (take LOG_BATCH_SIZE (drop (index s) pd))))"
    and "\<not> getsizeof (str_header w) (json_dumps (request_body w log_type (entries s)))
           + getsizeof (str_header w) (json_dumps (JArr (take LOG_BATCH_SIZE (drop (index s) pd))))
           \<le> SIZE_THRESHOLD_BYTES"
  shows "loop_body w log_type pd s = flush w log_type s"
  using assms unfolding loop_body_def Let_def by (simp del: json_dumps.simps)

lemma loop_body_extend:
  assumes "\<not> SIZE_THRESHOLD_BYTES
           \<le> getsizeof (str_header w) (json_dumps (JArr (take LOG_BATCH_SIZE (drop (index s) pd))))"
    and "getsizeof (str_header w) (json_dumps (request_body w log_type (entries s)))
           + getsizeof (str_header w) (json_dumps (JArr (take LOG_BATCH_SIZE (drop (index s) pd))))
           \<le> SIZE_THRESHOLD_BYTES"
  shows "loop_body w log_type pd s
         = s\<lparr>entries := entries s @ take LOG_BATCH_SIZE (drop (index s) pd),
              index := index s + LOG_BATCH_SIZE\<rparr>"
  using assms unfolding loop_body_def Let_def by (simp del: json_dumps.simps)

lemma while_loop_stop:
  "\<not> loop_running pd s \<Longrightarrow> while_loop w log_type pd fuel s = s"
  by (cases fuel) simp_all

lemma while_loop_add:
  "while_loop w log_type pd (m + n) s = while_loop w log_type pd n (while_loop w log_type pd m s)"
  by (induction m arbitrary: s) (simp_all add: while_loop_stop)

lemma while_loop_fuel:
  assumes "while_loop w log_type pd n s = s'" and "\<not> loop_running pd s'" and "n \<le> fuel"
  shows "while_loop w log_type pd fuel s = s'"
proof -
  from \<open>n \<le> fuel\<close> obtain k where "fuel = n + k"
    using le_Suc_ex by blast
  then show ?thesis
    using assms(1,2) by (simp add: while_loop_add while_loop_stop)
qed

text \<open>
  The run on one small record: one request with one entry, within the threshold.
\<close>

theorem requests_within_threshold_witness:
  "http_session (ingest_progress sample_world [JNum 0] ''STIX'' 1)
     = [ingestion_request (request_body sample_world ''STIX'' [envelope (JNum 0)]) ''us'']
   \<and> (\<exists>b. req_json (ingestion_request
                (request_body sample_world ''STIX'' [envelope (JNum 0)]) ''us'') = Some b
          \<and> getsizeof 49 (json_dumps b) \<le> SIZE_THRESHOLD_BYTES)"
proof -
  let ?e = "envelope (JNum 0)"
  let ?rq = "ingestion_request (request_body sample_world ''STIX'' [?e]) ''us''"
  let ?s1 = "\<lparr>index = 100, entries = [?e], http_session = [], raised = None\<rparr>"
  have 1: "loop_body sample_world ''STIX'' [?e] initial_state = ?s1"
    by (subst loop_body_extend)
       (simp_all add: initial_state_def LOG_BATCH_SIZE_def sample_payload_Nil sample_world_simps
          getsizeof_def sample_body_length length_dumps_JArr length_envelope_zero
          SIZE_THRESHOLD_BYTES_def del: json_dumps.simps)
  have wl: "while_loop sample_world ''STIX'' [?e] (Suc 0) initial_state = ?s1"
    by (simp add: 1 loop_running_def initial_state_def [symmetric])
       (simp add: initial_state_def loop_running_def)
  have stop: "\<not> loop_running [?e] ?s1"
    by (simp add: loop_running_def)
  have fin: "http_session (final_flush sample_world ''STIX'' ?s1) = [?rq]"
    by (simp add: final_flush_def flush_accepting [OF sample_world_simps(1)] sample_world_simps
        del: json_dumps.simps)
  have ev: "http_session (ingest_progress sample_world [JNum 0] ''STIX'' 1) = [?rq]"
    unfolding ingest_progress_initialized [OF initialize_accepting [OF sample_world_simps(1)]]
      Let_def One_nat_def list.map wl
    using stop fin by (simp del: json_dumps.simps)
  have h: "2 \<le> str_header sample_world"
    by (simp add: sample_world_simps)
  have e: "payload_size sample_world ''STIX'' [] \<le> SIZE_THRESHOLD_BYTES"
    by (simp add: sample_world_simps sample_payload_Nil SIZE_THRESHOLD_BYTES_def
        del: json_dumps.simps)
  from requests_within_threshold [OF h e, of "[JNum 0]" 1]
  have "\<forall>r \<in> set (http_session (ingest_progress sample_world [JNum 0] ''STIX'' 1)).
            \<exists>b. req_json r = Some b
              \<and> getsizeof (str_header sample_world) (json_dumps b) \<le> SIZE_THRESHOLD_BYTES"
    by blast
  then have "\<exists>b. req_json ?rq = Some b
              \<and> getsizeof 49 (json_dumps b) \<le> SIZE_THRESHOLD_BYTES"
    unfolding ev by (simp add: sample_world_simps del: json_dumps.simps)
  with ev show ?thesis by blast
qed

subsection \<open>Runs that never return\<close>

text \<open>A state with no entries in which the next unit does not fit is never left.\<close>

lemma stuck:
  assumes acc: "remote w = accepting"
    and nofit:
      "(SIZE_THRESHOLD_BYTES
          \<le> getsizeof (str_header w) (json_dumps (JArr (take LOG_BATCH_SIZE (drop (index s) pd))))
        \<and> \<not> getsizeof (str_header w) (json_dumps (request_body w log_type []))
              + getsizeof (str_header w) (json_dumps (pd ! index s)) \<le> SIZE_THRESHOLD_BYTES)
       \<or> (\<not> SIZE_THRESHOLD_BYTES
          \<le> getsizeof (str_header w) (json_dumps (JArr (take LOG_BATCH_SIZE (drop (index s) pd))))
        \<and> \<not> getsizeof (str_header w) (json_dumps (request_body w log_type []))
              + getsizeof (str_header w)
                  (json_dumps (JArr (take LOG_BATCH_SIZE (drop (index s) pd))))
              \<le> SIZE_THRESHOLD_BYTES)"
    and s: "entries s = []" "loop_running pd s"
  shows "while_loop w log_type pd fuel s
         = s\<lparr>http_session := http_session s
                @ replicate fuel (ingestion_request (request_body w log_type []) (REGION w))\<rparr>"
proof -
  let ?r = "ingestion_request (request_body w log_type []) (REGION w)"
  have step: "loop_body w log_type pd (s\<lparr>http_session := h\<rparr>)
              = s\<lparr>http_session := h @ [?r]\<rparr>" for h
  proof -
    have "loop_body w log_type pd (s\<lparr>http_session := h\<rparr>)
          = flush w log_type (s\<lparr>http_session := h\<rparr>)"
      using nofit s(1)
      by (auto simp del: json_dumps.simps intro: loop_body_flush_single loop_body_flush_batch)
    also have "\<dots> = s\<lparr>http_session := h @ [?r]\<rparr>"
      using s by (simp add: flush_accepting [OF acc])
    finally show ?thesis .
  qed
  have run: "loop_running pd (s\<lparr>http_session := h\<rparr>)" for h
    using s by (simp add: loop_running_def)
  have gen: "while_loop w log_type pd n (s\<lparr>http_session := h\<rparr>)
             = s\<lparr>http_session := h @ replicate n ?r\<rparr>" for n h
  proof (induction n arbitrary: h)
    case 0
    show ?case by simp
  next
    case (Suc n)
    show ?case
      using run [of h] Suc [of "h @ [?r]"]
      by (simp add: step replicate_app_Cons_same)
  qed
  from gen [of fuel "http_session s"] show ?thesis by simp
qed

lemma stuck_ingest:
  assumes acc: "remote w = accepting"
    and nofit:
      "(SIZE_THRESHOLD_BYTES
          \<le> getsizeof (str_header w) (json_dumps (JArr (take LOG_BATCH_SIZE pd)))
        \<and> \<not> getsizeof (str_header w) (json_dumps (request_body w log_type []))
              + getsizeof (str_header w) (json_dumps (pd ! 0)) \<le> SIZE_THRESHOLD_BYTES)
       \<or> (\<not> SIZE_THRESHOLD_BYTES
          \<le> getsizeof (str_header w) (json_dumps (JArr (take LOG_BATCH_SIZE pd)))
        \<and> \<not> getsizeof (str_header w) (json_dumps (request_body w log_type []))
              + getsizeof (str_header w) (json_dumps (JArr (take LOG_BATCH_SIZE pd)))
              \<le> SIZE_THRESHOLD_BYTES)"
    and pd: "pd = map envelope data" "data \<noteq> []"
  shows "ingest w data log_type fuel = None"
    and "http_session (ingest_progress w data log_type fuel)
         = replicate fuel (ingestion_request (request_body w log_type []) (REGION w))"
proof -
  have run: "loop_running pd initial_state"
    using pd by (simp add: loop_running_def initial_state_def)
  have w: "while_loop w log_type pd fuel initial_state
        = initial_state\<lparr>http_session := http_session initial_state
                @ replicate fuel (ingestion_request (request_body w log_type []) (REGION w))\<rparr>"
    using nofit run by (intro stuck [OF acc]) (simp_all add: initial_state_def)
  have still: "loop_running pd (while_loop w log_type pd fuel initial_state)"
    unfolding w using run by (simp add: loop_running_def)
  show "ingest w data log_type fuel = None"
    using still
    by (simp add: ingest_initialized [OF initialize_accepting [OF acc]] Let_def pd(1) [symmetric])
  show "http_session (ingest_progress w data log_type fuel)
         = replicate fuel (ingestion_request (request_body w log_type []) (REGION w))"
  proof -
    have "http_session (while_loop w log_type pd fuel initial_state)
          = replicate fuel (ingestion_request (request_body w log_type []) (REGION w))"
      unfolding w by (simp add: initial_state_def)
    with still show ?thesis
      by (simp add: ingest_progress_initialized [OF initialize_accepting [OF acc]] Let_def
          pd(1) [symmetric])
  qed
qed

text \<open>One record whose envelope alone reaches the threshold.\<close>

lemma oversize_stuck:
  assumes acc: "remote w = accepting"
    and big: "SIZE_THRESHOLD_BYTES \<le> n"
  shows "ingest w [JStr (replicate n CHR ''a'')] log_type fuel = None"
    and "http_session (ingest_progress w [JStr (replicate n CHR ''a'')] log_type fuel)
         = replicate fuel (ingestion_request (request_body w log_type []) (REGION w))"
proof -
  let ?pd = "map envelope [JStr (replicate n CHR ''a'')]"
  have nofit:
    "(SIZE_THRESHOLD_BYTES
          \<le> getsizeof (str_header w) (json_dumps (JArr (take LOG_BATCH_SIZE ?pd)))
        \<and> \<not> getsizeof (str_header w) (json_dumps (request_body w log_type []))
              + getsizeof (str_header w) (json_dumps (?pd ! 0)) \<le> SIZE_THRESHOLD_BYTES)
       \<or> (\<not> SIZE_THRESHOLD_BYTES
          \<le> getsizeof (str_header w) (json_dumps (JArr (take LOG_BATCH_SIZE ?pd)))
        \<and> \<not> getsizeof (str_header w) (json_dumps (request_body w log_type []))
              + getsizeof (str_header w) (json_dumps (JArr (take LOG_BATCH_SIZE ?pd)))
              \<le> SIZE_THRESHOLD_BYTES)"
    using big
    by (simp add: LOG_BATCH_SIZE_def getsizeof_def length_dumps_JArr length_envelope_as
        del: json_dumps.simps)
  show "ingest w [JStr (replicate n CHR ''a'')] log_type fuel = None"
    by (rule stuck_ingest(1) [OF acc nofit]) simp_all
  show "http_session (ingest_progress w [JStr (replicate n CHR ''a'')] log_type fuel)
         = replicate fuel (ingestion_request (request_body w log_type []) (REGION w))"
    by (rule stuck_ingest(2) [OF acc nofit]) simp_all
qed

text \<open>Up to a hundred small records whose probe batch stays below the threshold but does
  not fit together with the empty body.\<close>

lemma batch_stuck:
  assumes acc: "remote w = accepting"
    and k: "0 < k" "k \<le> LOG_BATCH_SIZE"
    and below: "str_header w + k * (n + 21) < SIZE_THRESHOLD_BYTES"
    and above: "SIZE_THRESHOLD_BYTES < 2 * str_header w + 48 + k * (n + 21)"
  shows "ingest w (replicate k (JStr (replicate n CHR ''a''))) log_type fuel = None"
    and "http_session (ingest_progress w (replicate k (JStr (replicate n CHR ''a''))) log_type fuel)
         = replicate fuel (ingestion_request (request_body w log_type []) (REGION w))"
proof -
  let ?e = "envelope (JStr (replicate n CHR ''a''))"
  let ?pd = "map envelope (replicate k (JStr (replicate n CHR ''a'')))"
  have take: "take LOG_BATCH_SIZE ?pd = replicate k ?e"
    using k by (simp add: min_def)
  have batch: "getsizeof (str_header w) (json_dumps (JArr (replicate k ?e)))
               = str_header w + k * (n + 21)"
    using k by (simp add: size_batch_replicate length_envelope_as del: json_dumps.simps)
  have nofit:
    "(SIZE_THRESHOLD_BYTES
          \<le> getsizeof (str_header w) (json_dumps (JArr (take LOG_BATCH_SIZE ?pd)))
        \<and> \<not> getsizeof (str_header w) (json_dumps (request_body w log_type []))
              + getsizeof (str_header w) (json_dumps (?pd ! 0)) \<le> SIZE_THRESHOLD_BYTES)
       \<or> (\<not> SIZE_THRESHOLD_BYTES
          \<le> getsizeof (str_header w) (json_dumps (JArr (take LOG_BATCH_SIZE ?pd)))
        \<and> \<not> getsizeof (str_header w) (json_dumps (request_body w log_type []))
              + getsizeof (str_header w) (json_dumps (JArr (take LOG_BATCH_SIZE ?pd)))
              \<le> SIZE_THRESHOLD_BYTES)"
    unfolding take batch
    using below above length_request_body_Nil_ge [of w log_type]
    by (simp add: getsizeof_def del: json_dumps.simps)
  have ne: "replicate k (JStr (replicate n CHR ''a'')) \<noteq> []"
    using k by simp
  show "ingest w (replicate k (JStr (replicate n CHR ''a''))) log_type fuel = None"
    by (rule stuck_ingest(1) [OF acc nofit refl ne])
  show "http_session (ingest_progress w (replicate k (JStr (replicate n CHR ''a''))) log_type fuel)
         = replicate fuel (ingestion_request (request_body w log_type []) (REGION w))"
    by (rule stuck_ingest(2) [OF acc nofit refl ne])
qed

text \<open>A body without entries whose log type alone fills the threshold.\<close>

lemma sample_body_length_as:
  "length (json_dumps (request_body sample_world (replicate n CHR ''a'') [])) = n + 49"
  by (simp add: request_body_def sample_world_def dumps_str_as)
     (simp add: dumps_str_def escape_char_def)

text \<open>
  C2 as stated fails when the body without entries is itself above the threshold: with a
  log type of 950000 characters and one small record, the request of the first pass
  measures more than \<open>SIZE_THRESHOLD_BYTES\<close> and carries no entry at all, so it is not
  the request of a single envelope that exceeds the threshold.
\<close>

theorem oversize_log_type_request:
  "SIZE_THRESHOLD_BYTES < payload_size sample_world (replicate 950000 CHR ''a'') []
   \<and> (\<forall>fuel. ingest sample_world [JNum 0] (replicate 950000 CHR ''a'') fuel = None)
   \<and> http_session (ingest_progress sample_world [JNum 0] (replicate 950000 CHR ''a'') 1)
     = [ingestion_request (request_body sample_world (replicate 950000 CHR ''a'') []) ''us'']
   \<and> entries_of (ingestion_request (request_body sample_world (replicate 950000 CHR ''a'') []) ''us'')
     = []"
proof -
  let ?lt = "replicate 950000 CHR ''a''"
  let ?pd = "map envelope [JNum 0]"
  have big: "SIZE_THRESHOLD_BYTES < payload_size sample_world ?lt []"
    by (simp add: getsizeof_def sample_body_length_as SIZE_THRESHOLD_BYTES_def
        del: json_dumps.simps)
  have nofit:
    "(SIZE_THRESHOLD_BYTES
          \<le> getsizeof (str_header sample_world) (json_dumps (JArr (take LOG_BATCH_SIZE ?pd)))
        \<and> \<not> getsizeof (str_header sample_world) (json_dumps (request_body sample_world ?lt []))
              + getsizeof (str_header sample_world) (json_dumps (?pd ! 0)) \<le> SIZE_THRESHOLD_BYTES)
       \<or> (\<not> SIZE_THRESHOLD_BYTES
          \<le> getsizeof (str_header sample_world) (json_dumps (JArr (take LOG_BATCH_SIZE ?pd)))
        \<and> \<not> getsizeof (str_header sample_world) (json_dumps (request_body sample_world ?lt []))
              + getsizeof (str_header sample_world) (json_dumps (JArr (take LOG_BATCH_SIZE ?pd)))
              \<le> SIZE_THRESHOLD_BYTES)"
    by (simp add: LOG_BATCH_SIZE_def getsizeof_def length_dumps_JArr length_envelope_zero
        sample_body_length_as SIZE_THRESHOLD_BYTES_def del: json_dumps.simps)
  have none: "ingest sample_world [JNum 0] ?lt fuel = None" for fuel
    by (rule stuck_ingest(1) [OF sample_world_simps(1) nofit]) simp_all
  have "http_session (ingest_progress sample_world [JNum 0] ?lt 1)
        = replicate 1 (ingestion_request (request_body sample_world ?lt []) (REGION sample_world))"
    by (rule stuck_ingest(2) [OF sample_world_simps(1) nofit]) simp_all
  then have sess: "http_session (ingest_progress sample_world [JNum 0] ?lt 1)
        = [ingestion_request (request_body sample_world ?lt []) ''us'']"
    by (simp add: sample_world_simps del: json_dumps.simps)
  have ent: "entries_of (ingestion_request (request_body sample_world ?lt []) ''us'') = []"
    by (simp add: ingestion_request_def request_body_def)
  from big none sess ent show ?thesis by blast
qed

text \<open>
  C3 states that the loop terminates for every finite input.  On the input of one record
  whose envelope alone reaches the threshold, and a remote end that accepts every
  request, \<open>ingest\<close> has not returned after any number of passes, and has sent one
  request in each of them: each pass sends the body without entries and leaves the cursor
  where it was.
\<close>

theorem ingest_oversize_record_never_returns:
  "ingest (w\<lparr>remote := accepting\<rparr>) [JStr (replicate 950000 CHR ''a'')] log_type fuel = None
   \<and> length (http_session (ingest_progress (w\<lparr>remote := accepting\<rparr>)
               [JStr (replicate 950000 CHR ''a'')] log_type fuel))
     = fuel"
proof
  show "ingest (w\<lparr>remote := accepting\<rparr>) [JStr (replicate 950000 CHR ''a'')] log_type fuel = None"
    by (rule oversize_stuck(1)) (simp_all add: SIZE_THRESHOLD_BYTES_def)
  have "http_session (ingest_progress (w\<lparr>remote := accepting\<rparr>)
          [JStr (replicate 950000 CHR ''a'')] log_type fuel)
        = replicate fuel (ingestion_request (request_body (w\<lparr>remote := accepting\<rparr>) log_type [])
            (REGION (w\<lparr>remote := accepting\<rparr>)))"
    by (rule oversize_stuck(2)) (simp_all add: SIZE_THRESHOLD_BYTES_def)
  then show "length (http_session (ingest_progress (w\<lparr>remote := accepting\<rparr>)
               [JStr (replicate 950000 CHR ''a'')] log_type fuel))
     = fuel"
    by (simp only: length_replicate)
qed

text \<open>
  C4 states that one record whose envelope serializes to twice the threshold is sent
  alone in a single request.  With a remote end that accepts every request, \<open>ingest\<close>
  never returns on such a record, and none of the requests it issues, one per pass,
  carries an entry.
\<close>

theorem ingest_double_threshold_record_never_sent:
  "length (json_dumps (envelope (JStr (replicate 1899981 CHR ''a'')))) = 2 * SIZE_THRESHOLD_BYTES
   \<and> ingest (w\<lparr>remote := accepting\<rparr>) [JStr (replicate 1899981 CHR ''a'')] log_type fuel = None
   \<and> map entries_of
       (http_session (ingest_progress (w\<lparr>remote := accepting\<rparr>)
          [JStr (replicate 1899981 CHR ''a'')] log_type fuel))
     = replicate fuel []"
proof (intro conjI)
  show "length (json_dumps (envelope (JStr (replicate 1899981 CHR ''a'')))) = 2 * SIZE_THRESHOLD_BYTES"
    by (simp add: length_envelope_as SIZE_THRESHOLD_BYTES_def del: json_dumps.simps)
  show "ingest (w\<lparr>remote := accepting\<rparr>) [JStr (replicate 1899981 CHR ''a'')] log_type fuel = None"
    by (rule oversize_stuck(1)) (simp_all add: SIZE_THRESHOLD_BYTES_def)
  have "http_session (ingest_progress (w\<lparr>remote := accepting\<rparr>)
          [JStr (replicate 1899981 CHR ''a'')] log_type fuel)
        = replicate fuel (ingestion_request (request_body (w\<lparr>remote := accepting\<rparr>) log_type [])
            (REGION (w\<lparr>remote := accepting\<rparr>)))"
    by (rule oversize_stuck(2)) (simp_all add: SIZE_THRESHOLD_BYTES_def)
  then show "map entries_of
       (http_session (ingest_progress (w\<lparr>remote := accepting\<rparr>)
          [JStr (replicate 1899981 CHR ''a'')] log_type fuel))
     = replicate fuel []"
    by (simp add: ingestion_request_def request_body_def)
qed

text \<open>
  C1 states that the requests carry all envelopes of the input, in order, when every
  envelope is below the threshold.  On a hundred records whose envelopes measure 9546
  bytes each, the probe batch is below the threshold but does not fit together with
  the body without entries: \<open>ingest\<close> never returns and none of its requests carries an
  entry.
\<close>

theorem ingest_small_records_never_sent:
  "getsizeof 49 (json_dumps (envelope (JStr (replicate 9478 CHR ''a'')))) < SIZE_THRESHOLD_BYTES
   \<and> ingest (w\<lparr>remote := accepting, str_header := 49\<rparr>)
       (replicate 100 (JStr (replicate 9478 CHR ''a''))) log_type fuel = None
   \<and> map entries_of
       (http_session (ingest_progress (w\<lparr>remote := accepting, str_header := 49\<rparr>)
          (replicate 100 (JStr (replicate 9478 CHR ''a''))) log_type fuel))
     = replicate fuel []"
proof (intro conjI)
  show "getsizeof 49 (json_dumps (envelope (JStr (replicate 9478 CHR ''a'')))) < SIZE_THRESHOLD_BYTES"
    by (simp add: getsizeof_def length_envelope_as SIZE_THRESHOLD_BYTES_def del: json_dumps.simps)
  show "ingest (w\<lparr>remote := accepting, str_header := 49\<rparr>)
       (replicate 100 (JStr (replicate 9478 CHR ''a''))) log_type fuel = None"
    by (rule batch_stuck(1)) (simp_all add: SIZE_THRESHOLD_BYTES_def LOG_BATCH_SIZE_def)
  have "http_session (ingest_progress (w\<lparr>remote := accepting, str_header := 49\<rparr>)
          (replicate 100 (JStr (replicate 9478 CHR ''a''))) log_type fuel)
        = replicate fuel
            (ingestion_request (request_body (w\<lparr>remote := accepting, str_header := 49\<rparr>) log_type [])
               (REGION (w\<lparr>remote := accepting, str_header := 49\<rparr>)))"
    by (rule batch_stuck(2)) (simp_all add: SIZE_THRESHOLD_BYTES_def LOG_BATCH_SIZE_def)
  then show "map entries_of
       (http_session (ingest_progress (w\<lparr>remote := accepting, str_header := 49\<rparr>)
          (replicate 100 (JStr (replicate 9478 CHR ''a''))) log_type fuel))
     = replicate fuel []"
    by (simp add: ingestion_request_def request_body_def)
qed

subsection \<open>Scenario 1\<close>

text \<open>
  C5 (as amended).  For an input of 250 records and a remote end that accepts every
  request: when each of the three probe batches (100, 100 and 50 entries) is below the
  threshold and fits it together with a body without entries, but the second does not
  fit on top of the first, nor the third on top of the second, \<open>ingest\<close> issues exactly
  three requests, with 100, 100 and 50 entries.
\<close>

theorem three_probe_batches:
  assumes acc: "remote w = accepting"
    and len: "length data = 250"
    and b1: "batch_size w (take 100 (map envelope data)) < SIZE_THRESHOLD_BYTES"
            "payload_size w log_type [] + batch_size w (take 100 (map envelope data))
               \<le> SIZE_THRESHOLD_BYTES"
    and b2: "batch_size w (take 100 (drop 100 (map envelope data))) < SIZE_THRESHOLD_BYTES"
            "\<not> payload_size w log_type (take 100 (map envelope data))
                 + batch_size w (take 100 (drop 100 (map envelope data)))
               \<le> SIZE_THRESHOLD_BYTES"
            "payload_size w log_type [] + batch_size w (take 100 (drop 100 (map envelope data)))
               \<le> SIZE_THRESHOLD_BYTES"
    and b3: "batch_size w (drop 200 (map envelope data)) < SIZE_THRESHOLD_BYTES"
            "\<not> payload_size w log_type (take 100 (drop 100 (map envelope data)))
                 + batch_size w (drop 200 (map envelope data))
               \<le> SIZE_THRESHOLD_BYTES"
            "payload_size w log_type [] + batch_size w (drop 200 (map envelope data))
               \<le> SIZE_THRESHOLD_BYTES"
    and fuel: "5 \<le> fuel"
  shows "ingest w data log_type fuel
         = Some (map (\<lambda>es. ingestion_request (request_body w log_type es) (REGION w))
                   [take 100 (map envelope data),
                    take 100 (drop 100 (map envelope data)),
                    drop 200 (map envelope data)],
                 Inr ())
         \<and> length (take 100 (map envelope data)) = 100
         \<and> length (take 100 (drop 100 (map envelope data))) = 100
         \<and> length (drop 200 (map envelope data)) = 50"
proof -
  define pd where "pd = map envelope data"
  define r where "r = (\<lambda>es. ingestion_request (request_body w log_type es) (REGION w))"
  note b1' = b1 [folded pd_def] and b2' = b2 [folded pd_def] and b3' = b3 [folded pd_def]
  have lpd: "length pd = 250"
    by (simp add: pd_def len)
  have last: "take 100 (drop 200 pd) = drop 200 pd"
    by (simp add: lpd)
  let ?s1 = "\<lparr>index = 100, entries = take 100 pd, http_session = [], raised = None\<rparr>"
  let ?s2 = "\<lparr>index = 100, entries = [], http_session = [r (take 100 pd)], raised = None\<rparr>"
  let ?s3 = "\<lparr>index = 200, entries = take 100 (drop 100 pd),
              http_session = [r (take 100 pd)], raised = None\<rparr>"
  let ?s4 = "\<lparr>index = 200, entries = [],
              http_session = [r (take 100 pd), r (take 100 (drop 100 pd))], raised = None\<rparr>"
  let ?s5 = "\<lparr>index = 300, entries = drop 200 pd,
              http_session = [r (take 100 pd), r (take 100 (drop 100 pd))], raised = None\<rparr>"
  have 1: "loop_body w log_type pd initial_state = ?s1"
    using b1' by (subst loop_body_extend) (simp_all add: initial_state_def LOG_BATCH_SIZE_def
        del: json_dumps.simps)
  have 2: "loop_body w log_type pd ?s1 = ?s2"
    using b2' by (subst loop_body_flush_batch)
      (simp_all add: LOG_BATCH_SIZE_def flush_accepting [OF acc] r_def del: json_dumps.simps)
  have 3: "loop_body w log_type pd ?s2 = ?s3"
    using b2' by (subst loop_body_extend) (simp_all add: LOG_BATCH_SIZE_def del: json_dumps.simps)
  have 4: "loop_body w log_type pd ?s3 = ?s4"
    using b3' by (subst loop_body_flush_batch)
      (simp_all add: LOG_BATCH_SIZE_def flush_accepting [OF acc] r_def last del: json_dumps.simps)
  have 5: "loop_body w log_type pd ?s4 = ?s5"
    using b3' by (subst loop_body_extend)
      (simp_all add: LOG_BATCH_SIZE_def last del: json_dumps.simps)
  have wl: "while_loop w log_type pd (Suc (Suc (Suc (Suc (Suc 0))))) initial_state = ?s5"
    by (simp add: 1 2 3 4 5 loop_running_def initial_state_def [symmetric] lpd)
       (simp add: initial_state_def loop_running_def lpd)
  have stop: "\<not> loop_running pd ?s5"
    by (simp add: loop_running_def lpd)
  have enough: "Suc (Suc (Suc (Suc (Suc 0)))) \<le> fuel"
    using fuel by arith
  have w: "while_loop w log_type pd fuel initial_state = ?s5"
    by (rule while_loop_fuel [OF wl stop enough])
  have ne: "drop 200 pd \<noteq> []"
    by (simp add: lpd)
  have fin: "final_flush w log_type ?s5
             = \<lparr>index = 300, entries = [],
                http_session = [r (take 100 pd), r (take 100 (drop 100 pd)), r (drop 200 pd)],
                raised = None\<rparr>"
    using ne by (simp add: final_flush_def flush_accepting [OF acc] r_def)
  have "ingest w data log_type fuel
         = Some ([r (take 100 pd), r (take 100 (drop 100 pd)), r (drop 200 pd)], Inr ())"
    using stop
    by (simp add: ingest_initialized [OF initialize_accepting [OF acc]] Let_def
        pd_def [symmetric] w fin)
  then show ?thesis
    by (simp add: r_def pd_def len)
qed

text \<open>
  Such an input: 250 records whose envelopes serialize to 7000 characters each.
\<close>

theorem three_probe_batches_witness:
  "ingest sample_world (replicate 250 (JStr (replicate 6981 CHR ''a''))) ''STIX'' 5
   = Some (map (\<lambda>es. ingestion_request (request_body sample_world ''STIX'' es) ''us'')
             [replicate 100 (envelope (JStr (replicate 6981 CHR ''a''))),
              replicate 100 (envelope (JStr (replicate 6981 CHR ''a''))),
              replicate 50 (envelope (JStr (replicate 6981 CHR ''a'')))],
           Inr ())"
  using three_probe_batches [of sample_world "replicate 250 (JStr (replicate 6981 CHR ''a''))"
      "''STIX''" 5]
  by (simp add: sample_world_simps sample_payload_Nil sample_payload_replicate
      size_batch_replicate length_envelope_as SIZE_THRESHOLD_BYTES_def
      del: json_dumps.simps)

text \<open>
  C5 as stated fails: probe batches that are comfortably below the threshold are
  accumulated into one body.  For 250 records \<^verbatim>\<open>0\<close>, whose probe batch of 100 measures
  1849 bytes, \<open>ingest\<close> issues a single request with all 250 entries.
\<close>

theorem small_records_one_request:
  "ingest sample_world (replicate 250 (JNum 0)) ''STIX'' 3
   = Some ([ingestion_request
              (request_body sample_world ''STIX'' (replicate 250 (envelope (JNum 0)))) ''us''],
           Inr ())
   \<and> length (entries_of (ingestion_request
              (request_body sample_world ''STIX'' (replicate 250 (envelope (JNum 0)))) ''us''))
     = 250
   \<and> batch_size sample_world (replicate 100 (envelope (JNum 0))) = 1849"
proof -
  let ?e = "envelope (JNum 0)"
  let ?pd = "replicate 250 (envelope (JNum 0))"
  let ?s1 = "\<lparr>index = 100, entries = replicate 100 ?e, http_session = [], raised = None\<rparr>"
  let ?s2 = "\<lparr>index = 200, entries = replicate 200 ?e, http_session = [], raised = None\<rparr>"
  let ?s3 = "\<lparr>index = 300, entries = replicate 250 ?e, http_session = [], raised = None\<rparr>"
  have 1: "loop_body sample_world ''STIX'' ?pd initial_state = ?s1"
    by (subst loop_body_extend)
       (simp_all add: initial_state_def LOG_BATCH_SIZE_def sample_payload_Nil sample_world_simps
          size_batch_replicate length_envelope_zero SIZE_THRESHOLD_BYTES_def
          del: json_dumps.simps)
  have 2: "loop_body sample_world ''STIX'' ?pd ?s1 = ?s2"
    by (subst loop_body_extend)
       (simp_all add: LOG_BATCH_SIZE_def sample_payload_replicate sample_world_simps
          size_batch_replicate length_envelope_zero SIZE_THRESHOLD_BYTES_def
          replicate_add [symmetric] del: json_dumps.simps)
  have 3: "loop_body sample_world ''STIX'' ?pd ?s2 = ?s3"
    by (subst loop_body_extend)
       (simp_all add: LOG_BATCH_SIZE_def sample_payload_replicate sample_world_simps
          size_batch_replicate length_envelope_zero SIZE_THRESHOLD_BYTES_def
          replicate_add [symmetric] del: json_dumps.simps)
  have wl: "while_loop sample_world ''STIX'' ?pd (Suc (Suc (Suc 0))) initial_state = ?s3"
    by (simp add: 1 2 3 loop_running_def initial_state_def [symmetric])
       (simp add: initial_state_def loop_running_def)
  have three: "(3::nat) = Suc (Suc (Suc 0))"
    by simp
  have stop: "\<not> loop_running ?pd ?s3"
    by (simp add: loop_running_def)
  have fin: "final_flush sample_world ''STIX'' ?s3
             = \<lparr>index = 300, entries = [],
                http_session = [ingestion_request
                  (request_body sample_world ''STIX'' (replicate 250 ?e)) ''us''],
                raised = None\<rparr>"
    by (simp add: final_flush_def flush_accepting [OF sample_world_simps(1)] sample_world_simps
        del: json_dumps.simps)
  have a: "ingest sample_world (replicate 250 (JNum 0)) ''STIX'' 3
        = Some ([ingestion_request
              (request_body sample_world ''STIX'' (replicate 250 ?e)) ''us''], Inr ())"
    unfolding ingest_initialized [OF initialize_accepting [OF sample_world_simps(1)]]
      Let_def three map_replicate wl
    using stop by (simp add: fin del: json_dumps.simps)
  have b: "length (entries_of (ingestion_request
              (request_body sample_world ''STIX'' (replicate 250 ?e)) ''us'')) = 250"
    by (simp add: ingestion_request_def request_body_def)
  have c: "batch_size sample_world (replicate 100 ?e) = 1849"
    by (simp add: size_batch_replicate length_envelope_zero sample_world_simps
        del: json_dumps.simps)
  from a b c show ?thesis by blast
qed

subsection \<open>Runs that return\<close>

text \<open>When \<open>ingest\<close> returns normally, the entries of its requests are the envelopes of the
  input, in order.\<close>

lemma entries_of_request:
  "entries_of (ingestion_request (request_body w log_type es) region) = es"
  by (simp add: ingestion_request_def request_body_def)

lemma flush_entries_kept:
  assumes "raised s = None \<longrightarrow>
           concat (map entries_of (http_session s)) @ entries s = take (index s) pd"
    and "raised s = None"
  shows "raised (flush w log_type s) = None \<longrightarrow>
         concat (map entries_of (http_session (flush w log_type s)))
           @ entries (flush w log_type s) = take (index (flush w log_type s)) pd"
  using assms
  by (auto simp add: flush_def send_request_body Let_def entries_of_request
      simp del: entries_of.simps split: sum.splits)

lemma loop_body_entries_kept:
  assumes inv: "raised s = None \<longrightarrow>
           concat (map entries_of (http_session s)) @ entries s = take (index s) pd"
    and run: "loop_running pd s"
  shows "raised (loop_body w log_type pd s) = None \<longrightarrow>
         concat (map entries_of (http_session (loop_body w log_type pd s)))
           @ entries (loop_body w log_type pd s) = take (index (loop_body w log_type pd s)) pd"
proof -
  have r: "raised s = None" and i: "index s < length pd"
    using run by (simp_all add: loop_running_def)
  have one: "take (index s) pd @ [pd ! index s] = take (Suc (index s)) pd"
    using i by (simp add: take_Suc_conv_app_nth)
  have many: "take (index s) pd @ take n (drop (index s) pd) = take (index s + n) pd" for n
    by (simp add: take_add)
  have keep: "concat (map entries_of (http_session s)) @ entries s = take (index s) pd"
    using inv r by simp
  show ?thesis
    unfolding loop_body_def Let_def
    using flush_entries_kept [OF inv r, of w log_type] keep one many r
    by (simp del: json_dumps.simps entries_of.simps add: append_assoc [symmetric])
qed

lemma while_loop_entries_kept:
  "(raised s = None \<longrightarrow>
      concat (map entries_of (http_session s)) @ entries s = take (index s) pd)
   \<Longrightarrow> raised (while_loop w log_type pd fuel s) = None \<longrightarrow>
       concat (map entries_of (http_session (while_loop w log_type pd fuel s)))
         @ entries (while_loop w log_type pd fuel s)
       = take (index (while_loop w log_type pd fuel s)) pd"
proof (induction fuel arbitrary: s)
  case 0
  then show ?case by simp
next
  case (Suc fuel)
  show ?case
  proof (cases "loop_running pd s")
    case True
    from Suc.IH [OF loop_body_entries_kept [OF Suc.prems True]] True
    show ?thesis by simp
  next
    case False
    with Suc.prems show ?thesis by simp
  qed
qed

lemma ingest_returns_all_entries:
  assumes "ingest w data log_type fuel = Some (requests, Inr ())"
  shows "concat (map entries_of requests) = map envelope data"
proof -
  let ?pd = "map envelope data"
  let ?s = "while_loop w log_type ?pd fuel initial_state"
  have stop: "\<not> loop_running ?pd ?s"
    and req: "requests = http_session (final_flush w log_type ?s)"
    and ok: "raised (final_flush w log_type ?s) = None"
    using assms by (auto simp add: ingest_def Let_def split: if_splits option.splits sum.splits)
  have inv: "raised ?s = None \<longrightarrow>
             concat (map entries_of (http_session ?s)) @ entries ?s = take (index ?s) ?pd"
    by (rule while_loop_entries_kept) (simp add: initial_state_def)
  have r: "raised ?s = None"
    using ok by (auto simp add: final_flush_def flush_def send_request_body Let_def
        split: if_splits sum.splits)
  have all: "take (index ?s) ?pd = ?pd"
    using stop r by (simp add: loop_running_def)
  have "concat (map entries_of (http_session (final_flush w log_type ?s)))
          @ entries (final_flush w log_type ?s) = ?pd
        \<and> entries (final_flush w log_type ?s) = []"
    using inv r all ok flush_entries_kept [of ?s ?pd w log_type]
    by (auto simp add: final_flush_def flush_def send_request_body Let_def
        entries_of_request simp del: entries_of.simps split: if_splits sum.splits)
  then show ?thesis
    unfolding req by (metis append_Nil2)
qed

text \<open>The loop ends whenever, at every position, the unit it probes (the record when the
  probe batch reaches the threshold, the probe batch otherwise) fits into a body with no
  entries: every pass then either advances the index, or empties a body that had entries, or
  records an error. Twice the number of records is enough fuel.\<close>

lemma flush_cases:
  "(\<exists>err. raised (flush w log_type s) = Some err)
   \<or> (raised (flush w log_type s) = raised s \<and> entries (flush w log_type s) = []
      \<and> index (flush w log_type s) = index s)"
  by (simp add: flush_def send_request_body split: sum.splits)

lemma loop_body_progress:
  assumes fit: "if SIZE_THRESHOLD_BYTES \<le> batch_size w (take LOG_BATCH_SIZE (drop (index s) pd))
                then payload_size w log_type []
                       + getsizeof (str_header w) (json_dumps (pd ! index s))
                     \<le> SIZE_THRESHOLD_BYTES
                else payload_size w log_type []
                       + batch_size w (take LOG_BATCH_SIZE (drop (index s) pd))
                     \<le> SIZE_THRESHOLD_BYTES"
    and run: "loop_running pd s"
  shows "\<not> loop_running pd (loop_body w log_type pd s)
         \<or> 2 * (length pd - index (loop_body w log_type pd s))
             + (if entries (loop_body w log_type pd s) = [] then 0 else 1)
           < 2 * (length pd - index s) + (if entries s = [] then 0 else 1)"
proof -
  have i: "index s < length pd" and r: "raised s = None"
    using run by (simp_all add: loop_running_def)
  have batch: "take LOG_BATCH_SIZE (drop (index s) pd) \<noteq> []"
    using i by (simp add: LOG_BATCH_SIZE_def)
  have fl: "\<not> loop_running pd (flush w log_type s)
            \<or> 2 * (length pd - index (flush w log_type s))
                + (if entries (flush w log_type s) = [] then 0 else 1)
              < 2 * (length pd - index s) + (if entries s = [] then 0 else 1)"
    if "entries s \<noteq> []"
    using flush_cases [of w log_type s] that by (auto simp add: loop_running_def)
  show ?thesis
  proof (cases "entries s = []")
    case True
    with fit i batch show ?thesis
      unfolding loop_body_def Let_def
      by (auto simp del: json_dumps.simps simp add: LOG_BATCH_SIZE_def split: if_splits)
  next
    case False
    with fl i batch show ?thesis
      unfolding loop_body_def Let_def
      by (auto simp del: json_dumps.simps simp add: LOG_BATCH_SIZE_def split: if_splits)
  qed
qed

lemma while_loop_ends:
  assumes fit: "\<forall>i < length pd.
                  if SIZE_THRESHOLD_BYTES \<le> batch_size w (take LOG_BATCH_SIZE (drop i pd))
                  then payload_size w log_type []
                         + getsizeof (str_header w) (json_dumps (pd ! i))
                       \<le> SIZE_THRESHOLD_BYTES
                  else payload_size w log_type []
                         + batch_size w (take LOG_BATCH_SIZE (drop i pd))
                       \<le> SIZE_THRESHOLD_BYTES"
  shows "2 * (length pd - index s) + (if entries s = [] then 0 else 1) \<le> fuel
         \<Longrightarrow> \<not> loop_running pd (while_loop w log_type pd fuel s)"
proof (induction fuel arbitrary: s)
  case 0
  then show ?case by (simp add: loop_running_def)
next
  case (Suc fuel)
  show ?case
  proof (cases "loop_running pd s")
    case False
    then show ?thesis by simp
  next
    case True
    then have "index s < length pd"
      by (simp add: loop_running_def)
    with fit have "if SIZE_THRESHOLD_BYTES \<le> batch_size w (take LOG_BATCH_SIZE (drop (index s) pd))
                then payload_size w log_type []
                       + getsizeof (str_header w) (json_dumps (pd ! index s))
                     \<le> SIZE_THRESHOLD_BYTES
                else payload_size w log_type []
                       + batch_size w (take LOG_BATCH_SIZE (drop (index s) pd))
                     \<le> SIZE_THRESHOLD_BYTES"
      by blast
    from loop_body_progress [OF this True]
    consider "\<not> loop_running pd (loop_body w log_type pd s)"
      | "2 * (length pd - index (loop_body w log_type pd s))
             + (if entries (loop_body w log_type pd s) = [] then 0 else 1)
           < 2 * (length pd - index s) + (if entries s = [] then 0 else 1)"
      by blast
    then show ?thesis
    proof cases
      case 1
      with True show ?thesis by (simp add: while_loop_stop)
    next
      case 2
      with Suc.prems have "2 * (length pd - index (loop_body w log_type pd s))
             + (if entries (loop_body w log_type pd s) = [] then 0 else 1) \<le> fuel"
        by linarith
      from Suc.IH [OF this] True show ?thesis by simp
    qed
  qed
qed

lemma ingest_returns:
  assumes "\<forall>i < length data.
             if SIZE_THRESHOLD_BYTES
                  \<le> batch_size w (take LOG_BATCH_SIZE (drop i (map envelope data)))
             then payload_size w log_type []
                    + getsizeof (str_header w) (json_dumps (map envelope data ! i))
                  \<le> SIZE_THRESHOLD_BYTES
             else payload_size w log_type []
                    + batch_size w (take LOG_BATCH_SIZE (drop i (map envelope data)))
                  \<le> SIZE_THRESHOLD_BYTES"
  shows "\<exists>requests outcome. ingest w data log_type (2 * length data) = Some (requests, outcome)"
proof -
  have "\<not> loop_running (map envelope data)
          (while_loop w log_type (map envelope data) (2 * length data) initial_state)"
    using assms by (intro while_loop_ends) (simp_all add: initial_state_def)
  then show ?thesis
    by (simp add: ingest_def Let_def split: sum.splits)
qed

end
